theory Spec2Isabelle
  imports Complex_Main
begin

section \<open>Data model\<close>

text \<open>
  The coupon application consists of a relational store (two tables, declared in the SQL
  migration) and a single React component \<^verbatim>\<open>App\<close> (\<^verbatim>\<open>src/App.tsx\<close>).
  Identifiers are strings (uuids), instants are integer milliseconds since the epoch
  (what \<^verbatim>\<open>Date.getTime()\<close> and \<^verbatim>\<open>Date.now()\<close> return).
\<close>

type_synonym uuid = string
type_synonym millis = int

text \<open>
  A row of table \<^verbatim>\<open>coupons\<close>; the client receives the same columns through
  \<^verbatim>\<open>select('*')\<close>. The column \<^verbatim>\<open>id\<close> is called \<open>id_coupon\<close> here, since \<open>id\<close> is the
  identity function of HOL. The columns \<^verbatim>\<open>is_claimed\<close> and \<^verbatim>\<open>created_at\<close> always hold a
  value: rows are created by the seed statement only, with the defaults \<^verbatim>\<open>false\<close> and
  \<^verbatim>\<open>now()\<close>, and the only update sets \<^verbatim>\<open>is_claimed\<close> to true.
\<close>

record Coupon =
  id_coupon :: uuid
  code :: string
  description :: string
  is_claimed :: bool
  created_at :: millis

text \<open>A row of table \<^verbatim>\<open>claims\<close> (\<open>id_claim\<close> is its column \<^verbatim>\<open>id\<close>). The client always
  supplies \<^verbatim>\<open>coupon_id\<close> and never \<^verbatim>\<open>claimed_at\<close>, which is the store's \<^verbatim>\<open>now()\<close>, read by
  the client through \<^verbatim>\<open>new Date(...).getTime()\<close>.\<close>

record Claim =
  id_claim :: uuid
  coupon_id :: uuid
  ip_address :: string
  browser_id :: string
  claimed_at :: millis

record database =
  coupons_tbl :: "Coupon list"
  claims_tbl :: "Claim list"

text \<open>
  Every call of the store client resolves to an object \<^verbatim>\<open>{ data, error }\<close>: the client
  does not reject its promise, a failure of the network or of the store is reported in
  \<^verbatim>\<open>error\<close> with \<^verbatim>\<open>data = null\<close>, and a successful call has an \<^verbatim>\<open>error\<close> of null.
\<close>

record 'a response =
  data :: "'a option"
  error :: "string option"

definition failed :: "string \<Rightarrow> 'a response" where
  "failed msg = \<lparr>data = None, error = Some msg\<rparr>"

definition succeeded :: "'a \<Rightarrow> 'a response" where
  "succeeded x = \<lparr>data = Some x, error = None\<rparr>"

section \<open>The store\<close>

text \<open>
  A request either fails before it reaches the tables (network or store error, given as
  \<open>Some msg\<close>) and changes nothing, or it is executed on the tables.
\<close>

type_synonym fault = "string option"

text \<open>\<^verbatim>\<open>from('coupons').select('*').order('created_at', { ascending: true })\<close>.
  The order among rows with equal \<^verbatim>\<open>created_at\<close> is the table's (SQL leaves it open).\<close>

definition select_coupons :: "fault \<Rightarrow> database \<Rightarrow> Coupon list response" where
  "select_coupons f d =
     (case f of Some msg \<Rightarrow> failed msg
      | None \<Rightarrow> succeeded (sort_key created_at (coupons_tbl d)))"

text \<open>\<^verbatim>\<open>from('claims').select('claimed_at').order('claimed_at', { ascending: false }).limit(1)\<close>:
  no \<^verbatim>\<open>eq\<close> filter on any column.\<close>

definition select_recent_claim :: "fault \<Rightarrow> database \<Rightarrow> millis list response" where
  "select_recent_claim f d =
     (case f of Some msg \<Rightarrow> failed msg
      | None \<Rightarrow> succeeded (map claimed_at (take 1 (rev (sort_key claimed_at (claims_tbl d))))))"

text \<open>Policy "Anyone can update unclaimed coupons":
  \<^verbatim>\<open>FOR UPDATE TO public USING (NOT is_claimed) WITH CHECK (true)\<close>.\<close>

definition update_using :: "Coupon \<Rightarrow> bool" where
  "update_using r = (\<not> is_claimed r)"

definition update_with_check :: "Coupon \<Rightarrow> bool" where
  "update_with_check r = True"

text \<open>
  An \<^verbatim>\<open>UPDATE coupons SET ... WHERE ...\<close> of role public under row level security: only rows
  that satisfy the \<^verbatim>\<open>WHERE\<close> clause and the policy's \<^verbatim>\<open>USING\<close> expression are touched, the
  others are skipped without an error.
\<close>

definition rls_update :: "(Coupon \<Rightarrow> bool) \<Rightarrow> (Coupon \<Rightarrow> Coupon) \<Rightarrow> Coupon list \<Rightarrow> Coupon list" where
  "rls_update wh upd tbl =
     map (\<lambda>r. if wh r \<and> update_using r \<and> update_with_check (upd r) then upd r else r) tbl"

text \<open>\<^verbatim>\<open>from('coupons').update({ is_claimed: true }).eq('id', cid)\<close>.\<close>

definition update_coupon :: "fault \<Rightarrow> uuid \<Rightarrow> database \<Rightarrow> unit response \<times> database" where
  "update_coupon f cid d =
     (case f of Some msg \<Rightarrow> (failed msg, d)
      | None \<Rightarrow>
          (succeeded (),
           d\<lparr>coupons_tbl :=
               rls_update (\<lambda>r. id_coupon r = cid) (\<lambda>r. r\<lparr>is_claimed := True\<rparr>) (coupons_tbl d)\<rparr>))"

text \<open>
  \<^verbatim>\<open>from('claims').insert([{ coupon_id, browser_id, ip_address }])\<close>: the row gets its
  \<^verbatim>\<open>id\<close> from \<^verbatim>\<open>gen_random_uuid()\<close> and its \<^verbatim>\<open>claimed_at\<close> from \<^verbatim>\<open>now()\<close>; the foreign
  key \<^verbatim>\<open>coupon_id REFERENCES coupons(id)\<close> and the primary key reject the row otherwise.
\<close>

definition insert_claim ::
  "fault \<Rightarrow> uuid \<Rightarrow> millis \<Rightarrow> uuid \<Rightarrow> string \<Rightarrow> string \<Rightarrow> database \<Rightarrow> unit response \<times> database" where
  "insert_claim f new_id now cid bid ip d =
     (case f of Some msg \<Rightarrow> (failed msg, d)
      | None \<Rightarrow>
          if cid \<notin> id_coupon ` set (coupons_tbl d) then (failed ''foreign key violation'', d)
          else if new_id \<in> id_claim ` set (claims_tbl d) then (failed ''duplicate key'', d)
          else (succeeded (),
                d\<lparr>claims_tbl := claims_tbl d @
                   [\<lparr>id_claim = new_id, coupon_id = cid, ip_address = ip,
                     browser_id = bid, claimed_at = now\<rparr>]\<rparr>))"

subsection \<open>Seed data\<close>

definition seed_values :: "(string \<times> string) list" where
  "seed_values =
     [(''SAVE10'', ''10% off your next purchase''),
      (''FREESHIP'', ''Free shipping on orders over $50''),
      (''SPRING25'', ''25% off spring collection''),
      (''WELCOME15'', ''15% off for new customers''),
      (''FLASH50'', ''50% off flash sale'')]"

text \<open>
  \<^verbatim>\<open>INSERT INTO coupons (code, description) VALUES ... ON CONFLICT DO NOTHING\<close>: each row
  takes the defaults of the other columns (\<^verbatim>\<open>gen_random_uuid()\<close>, \<^verbatim>\<open>false\<close>, \<^verbatim>\<open>now()\<close>) and
  is skipped when it violates a uniqueness constraint (\<^verbatim>\<open>code\<close> unique, \<^verbatim>\<open>id\<close> primary key).
\<close>

fun insert_on_conflict_do_nothing ::
  "millis \<Rightarrow> (uuid \<times> string \<times> string) list \<Rightarrow> Coupon list \<Rightarrow> Coupon list" where
  "insert_on_conflict_do_nothing now [] tbl = tbl"
| "insert_on_conflict_do_nothing now ((i, c, d) # vs) tbl =
     insert_on_conflict_do_nothing now vs
       (if c \<in> code ` set tbl \<or> i \<in> id_coupon ` set tbl then tbl
        else tbl @ [\<lparr>id_coupon = i, code = c, description = d,
                     is_claimed = False, created_at = now\<rparr>])"

text \<open>The seed statement; \<open>gen k\<close> is the uuid drawn for the \<open>k\<close>-th row of \<^verbatim>\<open>VALUES\<close>.\<close>

definition seed :: "(nat \<Rightarrow> uuid) \<Rightarrow> millis \<Rightarrow> database \<Rightarrow> database" where
  "seed gen now d =
     d\<lparr>coupons_tbl :=
         insert_on_conflict_do_nothing now
           (zip (map gen [0..<length seed_values]) seed_values) (coupons_tbl d)\<rparr>"

section \<open>The client\<close>

text \<open>The five \<^verbatim>\<open>useState\<close> cells of \<^verbatim>\<open>App\<close>. \<open>timeLeft\<close> holds the minutes and seconds that
  the template \<^verbatim>\<open>`${minutes}m ${seconds}s`\<close> renders.\<close>

record app_state =
  coupons :: "Coupon list"
  loading :: bool
  claiming :: bool
  nextClaimTime :: "millis option"
  timeLeft :: "(int \<times> int) option"

text \<open>What the component does to the outside, in order.\<close>

datatype event =
    Select_coupons
  | Select_recent_claim
  | Update_coupon uuid
  | Insert_claim uuid string string
  | Toast_error string
  | Toast_success string
  | Console_error

text \<open>One browser talking to the store: component state, \<^verbatim>\<open>localStorage\<close>, the tables, and
  the requests and notifications issued so far.\<close>

record world =
  ui :: app_state
  localStorage :: "string \<rightharpoonup> string"
  store :: database
  log :: "event list"

definition emit :: "event \<Rightarrow> world \<Rightarrow> world" where
  "emit ev w = w\<lparr>log := log w @ [ev]\<rparr>"

definition initial_state :: app_state where
  "initial_state =
     \<lparr>coupons = [], loading = True, claiming = False, nextClaimTime = None, timeLeft = None\<rparr>"

definition initial_world :: "database \<Rightarrow> world" where
  "initial_world d = \<lparr>ui = initial_state, localStorage = Map.empty, store = d, log = []\<rparr>"

subsection \<open>fetchCoupons\<close>

definition fetchCoupons :: "fault \<Rightarrow> world \<Rightarrow> world" where
  "fetchCoupons f w =
     (let r = select_coupons f (store w);
          w1 = emit Select_coupons w
      in case error r of
           Some err \<Rightarrow>
             (emit Console_error (emit (Toast_error ''Failed to load coupons'') w1))
               \<lparr>ui := (ui w1)\<lparr>loading := False\<rparr>\<rparr>
         | None \<Rightarrow>
             w1\<lparr>ui := (ui w1)\<lparr>coupons := (case data r of Some rows \<Rightarrow> rows | None \<Rightarrow> []),
                              loading := False\<rparr>\<rparr>)"

subsection \<open>checkLastClaim\<close>

definition cooldown :: millis where
  "cooldown = 60 * 60 * 1000"

definition checkLastClaim :: "fault \<Rightarrow> world \<Rightarrow> world" where
  "checkLastClaim f w =
     (let r = select_recent_claim f (store w);
          w1 = emit Select_recent_claim w
      in case data r of
           Some (lastClaim # rest) \<Rightarrow>
             w1\<lparr>ui := (ui w1)\<lparr>nextClaimTime := Some (lastClaim + cooldown)\<rparr>\<rparr>
         | _ \<Rightarrow> w1)"

subsection \<open>updateTimeLeft\<close>

text \<open>
  \<^verbatim>\<open>nextClaimTime\<close> is a \<^verbatim>\<open>const\<close> of the render in which the function was created:
  \<^verbatim>\<open>setNextClaimTime\<close> schedules a new value for the next render and does not rebind it.
  So the value tested and subtracted is the one captured by the closure (first argument),
  while the setters act on the current state (last argument). \<^verbatim>\<open>!nextClaimTime\<close> holds for
  \<^verbatim>\<open>null\<close> and for \<^verbatim>\<open>0\<close>. In the last branch \<open>diff > 0\<close>, where \<^verbatim>\<open>Math.floor\<close> of the
  quotient is \<open>div\<close> and \<^verbatim>\<open>%\<close> is \<open>mod\<close>.
\<close>

definition updateTimeLeft :: "millis option \<Rightarrow> millis \<Rightarrow> app_state \<Rightarrow> app_state" where
  "updateTimeLeft captured now s =
     (case captured of
        None \<Rightarrow> s
      | Some t \<Rightarrow>
          if t = 0 then s
          else let diff = t - now in
            if diff \<le> 0 then s\<lparr>timeLeft := None, nextClaimTime := None\<rparr>
            else s\<lparr>timeLeft := Some (diff div 60000, (diff mod 60000) div 1000)\<rparr>)"

text \<open>The one-second interval: its closure belongs to the render for which the effect ran,
  that is the render of the current \<^verbatim>\<open>nextClaimTime\<close>.\<close>

definition tick :: "millis \<Rightarrow> world \<Rightarrow> world" where
  "tick now w = w\<lparr>ui := updateTimeLeft (nextClaimTime (ui w)) now (ui w)\<rparr>"

subsection \<open>claimCoupon\<close>

text \<open>What one run of the handler gets from outside: the fate of each request, the two
  readings of the clock, the uuid drawn by the browser, and the row id and timestamp
  drawn by the store for the inserted claim.\<close>

record env =
  recent_fault :: fault
  update_fault :: fault
  insert_fault :: fault
  refetch_fault :: fault
  recheck_fault :: fault
  now_claim :: millis
  now_tick :: millis
  random_uuid :: string
  row_id :: uuid
  db_now :: millis

definition availableCoupon :: "Coupon list \<Rightarrow> Coupon option" where
  "availableCoupon cs = List.find (\<lambda>c. \<not> is_claimed c) cs"

text \<open>
  Line 100. The source divides two doubles; both instants are whole milliseconds, for
  which the comparison of the quotient with 1 has the same outcome as over the reals
  (3600000 / 3600000 is exactly 1, and the largest smaller numerator, 3599999, gives a
  quotient far from 1), so the quotient is taken in the reals.
\<close>

definition hoursSinceLastClaim :: "millis \<Rightarrow> millis \<Rightarrow> real" where
  "hoursSinceLastClaim now lastClaim = real_of_int (now - lastClaim) / (1000 * 60 * 60)"

text \<open>Lines 98 to 102: the instant of the last claim when the attempt is to be refused.
  Only \<open>data\<close> is read, never \<open>error\<close>.\<close>

definition rate_limited :: "millis list response \<Rightarrow> millis \<Rightarrow> millis option" where
  "rate_limited r now =
     (case data r of
        Some (lastClaim # rest) \<Rightarrow>
          if hoursSinceLastClaim now lastClaim < 1 then Some lastClaim else None
      | _ \<Rightarrow> None)"

definition finally_block :: "world \<Rightarrow> world" where
  "finally_block w = w\<lparr>ui := (ui w)\<lparr>claiming := False\<rparr>\<rparr>"

definition catch_block :: "world \<Rightarrow> world" where
  "catch_block w = finally_block (emit Console_error (emit (Toast_error ''Failed to claim coupon'') w))"

text \<open>Lines 111 to 115; \<^verbatim>\<open>!browserId\<close> holds for \<^verbatim>\<open>null\<close> and for the empty string.\<close>

definition ensure_browser_id :: "string \<Rightarrow> (string \<rightharpoonup> string) \<Rightarrow> string \<times> (string \<rightharpoonup> string)" where
  "ensure_browser_id fresh ls =
     (case ls ''browser_id'' of
        Some b \<Rightarrow> if b = [] then (fresh, ls(''browser_id'' \<mapsto> fresh)) else (b, ls)
      | None \<Rightarrow> (fresh, ls(''browser_id'' \<mapsto> fresh)))"

text \<open>
  The handler is modelled backwards from its end, one definition for each \<^verbatim>\<open>await\<close>.
  Lines 124 to 138: the insert, and on success the notification and the two refreshes.
  The refreshes are not awaited; they complete after the \<^verbatim>\<open>finally\<close> block and are run
  here one after the other.
\<close>

definition claim_insert :: "env \<Rightarrow> Coupon \<Rightarrow> string \<Rightarrow> world \<Rightarrow> world" where
  "claim_insert e c browserId w =
     (let (ri, d) = insert_claim (insert_fault e) (row_id e) (db_now e)
                      (id_coupon c) browserId ''client-ip'' (store w);
          w1 = (emit (Insert_claim (id_coupon c) browserId ''client-ip'') w)\<lparr>store := d\<rparr>
      in case error ri of
           Some err \<Rightarrow> catch_block w1
         | None \<Rightarrow>
             checkLastClaim (recheck_fault e)
               (fetchCoupons (refetch_fault e)
                 (finally_block (emit (Toast_success (''Claimed coupon: '' @ code c)) w1))))"

text \<open>Lines 111 to 122: the browser identifier and the update of the coupon.\<close>

definition claim_update :: "env \<Rightarrow> Coupon \<Rightarrow> world \<Rightarrow> world" where
  "claim_update e c w =
     (let (browserId, ls) = ensure_browser_id (random_uuid e) (localStorage w);
          w1 = w\<lparr>localStorage := ls\<rparr>;
          (ru, d) = update_coupon (update_fault e) (id_coupon c) (store w1);
          w2 = (emit (Update_coupon (id_coupon c)) w1)\<lparr>store := d\<rparr>
      in case error ru of
           Some err \<Rightarrow> catch_block w2
         | None \<Rightarrow> claim_insert e c browserId w2)"

text \<open>
  Lines 92 to 109, the handler from its first \<^verbatim>\<open>await\<close> on. \<open>snap\<close> is the state of the
  render whose handler was invoked (the closure), \<open>c\<close> the coupon chosen before the
  \<^verbatim>\<open>await\<close>, \<open>w\<close> the world when the handler resumes.
\<close>

definition claim_resume :: "env \<Rightarrow> app_state \<Rightarrow> Coupon \<Rightarrow> world \<Rightarrow> world" where
  "claim_resume e snap c w =
     (let r = select_recent_claim (recent_fault e) (store w);
          w1 = emit Select_recent_claim w
      in case rate_limited r (now_claim e) of
           Some lastClaim \<Rightarrow>
             (let w2 = w1\<lparr>ui := (ui w1)\<lparr>nextClaimTime := Some (lastClaim + cooldown)\<rparr>\<rparr>;
                  w3 = w2\<lparr>ui := updateTimeLeft (nextClaimTime snap) (now_tick e) (ui w2)\<rparr>
              in finally_block (emit (Toast_error ''Please wait 1 hour between claims'') w3))
         | None \<Rightarrow> claim_update e c w1)"

text \<open>
  The handler up to its first \<^verbatim>\<open>await\<close> (lines 81 to 90): the world it leaves, and the
  coupon it goes on with, if it goes on.
\<close>

definition claim_begin :: "world \<Rightarrow> world \<times> Coupon option" where
  "claim_begin w =
     (if claiming (ui w) then (w, None)
      else
        let w1 = w\<lparr>ui := (ui w)\<lparr>claiming := True\<rparr>\<rparr> in
        case availableCoupon (coupons (ui w)) of
          None \<Rightarrow> (finally_block (emit (Toast_error ''No coupons available'') w1), None)
        | Some c \<Rightarrow> (w1, Some c))"

text \<open>The whole handler, when nothing else happens between its steps.\<close>

definition claimCoupon :: "env \<Rightarrow> world \<Rightarrow> world" where
  "claimCoupon e w =
     (case claim_begin w of
        (w1, None) \<Rightarrow> w1
      | (w1, Some c) \<Rightarrow> claim_resume e (ui w) c w1)"

text \<open>The button: \<^verbatim>\<open>disabled={claiming || loading || timeLeft !== null}\<close>.\<close>

definition button_disabled :: "app_state \<Rightarrow> bool" where
  "button_disabled s = (claiming s \<or> loading s \<or> timeLeft s \<noteq> None)"

text \<open>
  A second click while the first handler waits at its first \<^verbatim>\<open>await\<close>: the click event
  is handled after the render that follows \<^verbatim>\<open>setClaiming(true)\<close>, so the second handler
  closes over that state; the first handler resumes afterwards.
\<close>

definition two_clicks :: "env \<Rightarrow> env \<Rightarrow> world \<Rightarrow> world" where
  "two_clicks e1 e2 w =
     (case claim_begin w of
        (w1, None) \<Rightarrow> claimCoupon e2 w1
      | (w1, Some c) \<Rightarrow> claim_resume e1 (ui w) c (claimCoupon e2 w1))"

text \<open>The events that one run of the handler adds to the log.\<close>

definition issued :: "env \<Rightarrow> world \<Rightarrow> event list" where
  "issued e w = drop (length (log w)) (log (claimCoupon e w))"

definition is_write :: "event \<Rightarrow> bool" where
  "is_write ev = (case ev of Update_coupon i \<Rightarrow> True | Insert_claim i b a \<Rightarrow> True | _ \<Rightarrow> False)"

text \<open>The row that a run of the handler inserts for coupon \<open>c\<close> from a browser whose
  \<^verbatim>\<open>localStorage\<close> is \<open>ls\<close>.\<close>

definition new_claim :: "env \<Rightarrow> Coupon \<Rightarrow> (string \<rightharpoonup> string) \<Rightarrow> Claim" where
  "new_claim e c ls =
     \<lparr>id_claim = row_id e, coupon_id = id_coupon c, ip_address = ''client-ip'',
      browser_id = fst (ensure_browser_id (random_uuid e) ls), claimed_at = db_now e\<rparr>"

section \<open>Operations of the system\<close>

datatype operation =
    Seed "nat \<Rightarrow> uuid" millis
  | FetchCoupons fault
  | CheckLastClaim fault
  | Tick millis
  | ClaimCoupon env

fun exec :: "operation \<Rightarrow> world \<Rightarrow> world" where
  "exec (Seed gen now) w = w\<lparr>store := seed gen now (store w)\<rparr>"
| "exec (FetchCoupons f) w = fetchCoupons f w"
| "exec (CheckLastClaim f) w = checkLastClaim f w"
| "exec (Tick now) w = tick now w"
| "exec (ClaimCoupon e) w = claimCoupon e w"

text \<open>One browser performing a sequence of operations.\<close>

definition run :: "operation list \<Rightarrow> world \<Rightarrow> world" where
  "run ops w = fold exec ops w"

text \<open>
  Any number of browsers sharing the store: each step is an operation performed by a
  browser in some component state and with some \<^verbatim>\<open>localStorage\<close>; the tables are handed on.
\<close>

fun run_store :: "(operation \<times> app_state \<times> (string \<rightharpoonup> string)) list \<Rightarrow> database \<Rightarrow> database" where
  "run_store [] d = d"
| "run_store ((opn, s, ls) # steps) d =
     run_store steps (store (exec opn \<lparr>ui = s, localStorage = ls, store = d, log = []\<rparr>))"

text \<open>From one table state to a later one no row disappears or changes its id, and a
  claimed row stays claimed.\<close>

definition flag_monotone :: "Coupon list \<Rightarrow> Coupon list \<Rightarrow> bool" where
  "flag_monotone tbl tbl' =
     (length tbl \<le> length tbl' \<and>
      (\<forall>i < length tbl. id_coupon (tbl' ! i) = id_coupon (tbl ! i) \<and>
                          (is_claimed (tbl ! i) \<longrightarrow> is_claimed (tbl' ! i))))"

section \<open>Example data\<close>

definition mk_coupon :: "uuid \<Rightarrow> string \<Rightarrow> bool \<Rightarrow> millis \<Rightarrow> Coupon" where
  "mk_coupon i c claimed t =
     \<lparr>id_coupon = i, code = c, description = [], is_claimed = claimed, created_at = t\<rparr>"

definition mk_claim :: "uuid \<Rightarrow> uuid \<Rightarrow> string \<Rightarrow> millis \<Rightarrow> Claim" where
  "mk_claim i cid b t =
     \<lparr>id_claim = i, coupon_id = cid, ip_address = ''client-ip'', browser_id = b, claimed_at = t\<rparr>"

text \<open>A browser that has loaded the list \<open>cs\<close>, has no identifier yet and shows no countdown.\<close>

definition mk_world :: "Coupon list \<Rightarrow> database \<Rightarrow> world" where
  "mk_world cs d =
     \<lparr>ui = \<lparr>coupons = cs, loading = False, claiming = False, nextClaimTime = None,
             timeLeft = None\<rparr>,
      localStorage = Map.empty, store = d, log = []\<rparr>"

text \<open>A run of the handler at instant \<open>now\<close> in which no request fails.\<close>

definition mk_env :: "millis \<Rightarrow> env" where
  "mk_env now =
     \<lparr>recent_fault = None, update_fault = None, insert_fault = None, refetch_fault = None,
      recheck_fault = None, now_claim = now, now_tick = now, random_uuid = ''browser-A'',
      row_id = ''claim-A'', db_now = now\<rparr>"

text \<open>A browser whose list holds one coupon, already claimed.\<close>

definition world_all_claimed :: world where
  "world_all_claimed =
     mk_world [mk_coupon ''c-1'' ''SAVE10'' True 0]
       \<lparr>coupons_tbl = [mk_coupon ''c-1'' ''SAVE10'' True 0], claims_tbl = []\<rparr>"

text \<open>A browser whose list holds a claimed and an unclaimed coupon; the store holds the
  same rows and no claim.\<close>

definition world_one_free :: world where
  "world_one_free =
     mk_world [mk_coupon ''c-1'' ''SAVE10'' True 0, mk_coupon ''c-2'' ''FREESHIP'' False 0]
       \<lparr>coupons_tbl = [mk_coupon ''c-1'' ''SAVE10'' True 0, mk_coupon ''c-2'' ''FREESHIP'' False 0],
        claims_tbl = []\<rparr>"

text \<open>A browser whose list shows coupon \<^verbatim>\<open>c-2\<close> as free, while the store holds a claim made at
  instant 0 by another browser.\<close>

definition world_recent_claim :: world where
  "world_recent_claim =
     mk_world [mk_coupon ''c-1'' ''SAVE10'' True 0, mk_coupon ''c-2'' ''FREESHIP'' False 0]
       \<lparr>coupons_tbl = [mk_coupon ''c-1'' ''SAVE10'' True 0, mk_coupon ''c-2'' ''FREESHIP'' False 0],
        claims_tbl = [mk_claim ''claim-0'' ''c-1'' ''browser-B'' 0]\<rparr>"

text \<open>
  A page loaded more than an hour after the last claim (made at instant 1700000000000), in the second
  before the first tick of the interval: \<^verbatim>\<open>checkLastClaim\<close> has stored the instant
  1700003600000, which lies in the past. Meanwhile another browser has claimed coupon \<^verbatim>\<open>c-2\<close>
  at instant 1700004000100.
\<close>

definition db_old :: database where
  "db_old =
     \<lparr>coupons_tbl = [mk_coupon ''c-1'' ''SAVE10'' True 1690000000000, mk_coupon ''c-2'' ''FREESHIP'' False 1690000000000,
                     mk_coupon ''c-3'' ''SPRING25'' False 1690000000000],
      claims_tbl = [mk_claim ''claim-0'' ''c-1'' ''browser-B'' 1700000000000]\<rparr>"

definition db_after_other_claim :: database where
  "db_after_other_claim =
     store (claimCoupon ((mk_env 1700004000100)\<lparr>random_uuid := ''browser-C'', row_id := ''claim-C''\<rparr>)
              (mk_world (coupons_tbl db_old) db_old))"

definition world_stale :: world where
  "world_stale =
     (run [FetchCoupons None, CheckLastClaim None] (initial_world db_old))
       \<lparr>store := db_after_other_claim\<rparr>"

text \<open>An empty store, and a generator of pairwise different row identifiers.\<close>

definition empty_db :: database where
  "empty_db = \<lparr>coupons_tbl = [], claims_tbl = []\<rparr>"

definition gen0 :: "nat \<Rightarrow> uuid" where
  "gen0 k = replicate (Suc k) CHR ''u''"

section \<open>Basic facts\<close>

lemma emit_simps:
  "ui (emit ev w) = ui w" "store (emit ev w) = store w"
  "localStorage (emit ev w) = localStorage w" "log (emit ev w) = log w @ [ev]"
  by (simp_all add: emit_def)

lemma finally_block_simps:
  "ui (finally_block w) = (ui w)\<lparr>claiming := False\<rparr>" "store (finally_block w) = store w"
  "localStorage (finally_block w) = localStorage w" "log (finally_block w) = log w"
  by (simp_all add: finally_block_def)

lemma catch_block_simps:
  "ui (catch_block w) = (ui w)\<lparr>claiming := False\<rparr>" "store (catch_block w) = store w"
  "localStorage (catch_block w) = localStorage w"
  "log (catch_block w) = log w @ [Toast_error ''Failed to claim coupon'', Console_error]"
  by (simp_all add: catch_block_def emit_simps finally_block_simps)

lemma fetchCoupons_simps:
  "store (fetchCoupons f w) = store w" "localStorage (fetchCoupons f w) = localStorage w"
  "claiming (ui (fetchCoupons f w)) = claiming (ui w)"
  "nextClaimTime (ui (fetchCoupons f w)) = nextClaimTime (ui w)"
  "timeLeft (ui (fetchCoupons f w)) = timeLeft (ui w)"
  by (simp_all add: fetchCoupons_def select_coupons_def failed_def succeeded_def emit_simps Let_def
       split: option.splits)

lemma checkLastClaim_simps:
  "store (checkLastClaim f w) = store w" "localStorage (checkLastClaim f w) = localStorage w"
  "claiming (ui (checkLastClaim f w)) = claiming (ui w)"
  "coupons (ui (checkLastClaim f w)) = coupons (ui w)"
  "log (checkLastClaim f w) = log w @ [Select_recent_claim]"
  by (simp_all add: checkLastClaim_def emit_simps Let_def split: option.splits list.splits)

lemma hours_lt_one: "hoursSinceLastClaim now t < 1 \<longleftrightarrow> now - t < cooldown"
proof -
  have "hoursSinceLastClaim now t < 1 \<longleftrightarrow> real_of_int (now - t) < real_of_int 3600000"
    by (simp add: hoursSinceLastClaim_def)
  also have "\<dots> \<longleftrightarrow> now - t < 3600000"
    by (rule of_int_less_iff)
  finally show ?thesis by (simp add: cooldown_def)
qed

lemma rate_limited_Some_iff:
  "rate_limited r now = Some t \<longleftrightarrow> (\<exists>rest. data r = Some (t # rest)) \<and> now - t < cooldown"
  by (auto simp: rate_limited_def hours_lt_one split: option.splits list.splits)

lemma availableCoupon_None_iff: "availableCoupon cs = None \<longleftrightarrow> (\<forall>c \<in> set cs. is_claimed c)"
  by (auto simp: availableCoupon_def find_None_iff)

lemma ensure_browser_id_stored:
  "snd (ensure_browser_id fresh ls) ''browser_id'' = Some (fst (ensure_browser_id fresh ls))"
  by (simp add: ensure_browser_id_def split: option.splits)

lemma update_coupon_simps:
  "error (fst (update_coupon f cid d)) = f"
  "claims_tbl (snd (update_coupon f cid d)) = claims_tbl d"
  "coupons_tbl (snd (update_coupon f cid d)) =
     (if f = None then rls_update (\<lambda>r. id_coupon r = cid) (\<lambda>r. r\<lparr>is_claimed := True\<rparr>) (coupons_tbl d)
      else coupons_tbl d)"
  by (simp_all add: update_coupon_def failed_def succeeded_def split: option.splits)

lemma insert_claim_coupons: "coupons_tbl (snd (insert_claim f i n cid b ip d)) = coupons_tbl d"
  by (simp add: insert_claim_def split: option.splits)

lemma insert_claim_claims:
  "claims_tbl (snd (insert_claim f i n cid b ip d)) =
     (if error (fst (insert_claim f i n cid b ip d)) = None
      then claims_tbl d @ [\<lparr>id_claim = i, coupon_id = cid, ip_address = ip, browser_id = b, claimed_at = n\<rparr>]
      else claims_tbl d)"
  by (simp add: insert_claim_def failed_def succeeded_def split: option.splits)

section \<open>The handler, path by path\<close>

lemma claimCoupon_in_flight: "claiming (ui w) \<Longrightarrow> claimCoupon e w = w"
  by (simp add: claimCoupon_def claim_begin_def)

lemma claimCoupon_none:
  "\<not> claiming (ui w) \<Longrightarrow> availableCoupon (coupons (ui w)) = None \<Longrightarrow>
   claimCoupon e w = emit (Toast_error ''No coupons available'') w"
  by (simp add: claimCoupon_def claim_begin_def finally_block_def emit_def)

lemma claimCoupon_some:
  "\<not> claiming (ui w) \<Longrightarrow> availableCoupon (coupons (ui w)) = Some c \<Longrightarrow>
   claimCoupon e w = claim_resume e (ui w) c (w\<lparr>ui := (ui w)\<lparr>claiming := True\<rparr>\<rparr>)"
  by (simp add: claimCoupon_def claim_begin_def)

lemma claim_resume_refused:
  assumes "rate_limited (select_recent_claim (recent_fault e) (store w)) (now_claim e) = Some t"
  shows "claim_resume e snap c w =
    w\<lparr>ui := (updateTimeLeft (nextClaimTime snap) (now_tick e)
               ((ui w)\<lparr>nextClaimTime := Some (t + cooldown)\<rparr>))\<lparr>claiming := False\<rparr>,
      log := log w @ [Select_recent_claim, Toast_error ''Please wait 1 hour between claims'']\<rparr>"
  using assms by (simp add: claim_resume_def Let_def emit_def finally_block_def)

lemma claim_resume_permitted:
  "rate_limited (select_recent_claim (recent_fault e) (store w)) (now_claim e) = None \<Longrightarrow>
   claim_resume e snap c w = claim_update e c (emit Select_recent_claim w)"
  by (simp add: claim_resume_def)

lemma claim_insert_store:
  "store (claim_insert e c b w) =
     snd (insert_claim (insert_fault e) (row_id e) (db_now e) (id_coupon c) b ''client-ip'' (store w))"
  by (simp add: claim_insert_def Let_def catch_block_simps checkLastClaim_simps fetchCoupons_simps
        finally_block_simps emit_simps split: prod.splits option.splits)

lemma claim_insert_localStorage: "localStorage (claim_insert e c b w) = localStorage w"
  by (simp add: claim_insert_def Let_def catch_block_simps checkLastClaim_simps fetchCoupons_simps
        finally_block_simps emit_simps split: prod.splits option.splits)

lemma claim_insert_log:
  "\<exists>rest. log (claim_insert e c b w) = log w @ Insert_claim (id_coupon c) b ''client-ip'' # rest \<and>
          (\<forall>ev \<in> set rest. \<not> is_write ev \<and> ev \<noteq> Toast_error ''Please wait 1 hour between claims'')"
  by (simp add: claim_insert_def Let_def catch_block_simps checkLastClaim_simps fetchCoupons_def
        select_coupons_def failed_def succeeded_def
        finally_block_simps emit_simps is_write_def split: prod.splits option.splits)

lemma claim_insert_failed:
  assumes "error (fst (insert_claim (insert_fault e) (row_id e) (db_now e) (id_coupon c) b ''client-ip'' (store w))) \<noteq> None"
  shows "claim_insert e c b w =
     w\<lparr>ui := (ui w)\<lparr>claiming := False\<rparr>,
       store := snd (insert_claim (insert_fault e) (row_id e) (db_now e) (id_coupon c) b ''client-ip'' (store w)),
       log := log w @ [Insert_claim (id_coupon c) b ''client-ip'', Toast_error ''Failed to claim coupon'', Console_error]\<rparr>"
  using assms
  by (auto simp add: claim_insert_def Let_def catch_block_def finally_block_def emit_def split: prod.splits option.splits)

lemma claim_update_localStorage:
  "localStorage (claim_update e c w) = snd (ensure_browser_id (random_uuid e) (localStorage w))"
  by (simp add: claim_update_def Let_def catch_block_simps claim_insert_localStorage emit_simps
        split: prod.splits option.splits)

lemma claim_update_unfold:
  "claim_update e c w =
     (let b = fst (ensure_browser_id (random_uuid e) (localStorage w));
          w2 = w\<lparr>localStorage := snd (ensure_browser_id (random_uuid e) (localStorage w)),
                 log := log w @ [Update_coupon (id_coupon c)],
                 store := snd (update_coupon (update_fault e) (id_coupon c) (store w))\<rparr>
      in case update_fault e of Some m \<Rightarrow> catch_block w2 | None \<Rightarrow> claim_insert e c b w2)"
proof -
  obtain b ls where bl: "ensure_browser_id (random_uuid e) (localStorage w) = (b, ls)"
    by force
  obtain ru d where ru: "update_coupon (update_fault e) (id_coupon c) (store w) = (ru, d)"
    by force
  have er: "error ru = update_fault e"
    using update_coupon_simps(1)[of "update_fault e" "id_coupon c" "store w"] ru by simp
  show ?thesis
    using bl ru er by (cases "update_fault e") (simp_all add: claim_update_def emit_def Let_def)
qed


lemma claim_update_log:
  "\<exists>rest. log (claim_update e c w) = log w @ Update_coupon (id_coupon c) # rest \<and>
     (update_fault e \<noteq> None \<longrightarrow> rest = [Toast_error ''Failed to claim coupon'', Console_error]) \<and>
     (update_fault e = None \<longrightarrow>
        (\<exists>rest'. rest = Insert_claim (id_coupon c)
                        (fst (ensure_browser_id (random_uuid e) (localStorage w))) ''client-ip'' # rest'
                    \<and> (\<forall>ev \<in> set rest'. \<not> is_write ev \<and>
                          ev \<noteq> Toast_error ''Please wait 1 hour between claims'')))"
proof (cases "update_fault e")
  case None
  let ?b = "fst (ensure_browser_id (random_uuid e) (localStorage w))"
  let ?w2 = "w\<lparr>localStorage := snd (ensure_browser_id (random_uuid e) (localStorage w)),
                 log := log w @ [Update_coupon (id_coupon c)],
                 store := snd (update_coupon (update_fault e) (id_coupon c) (store w))\<rparr>"
  obtain rest where "log (claim_insert e c ?b ?w2) = log ?w2 @ Insert_claim (id_coupon c) ?b ''client-ip'' # rest"
    and "\<forall>ev \<in> set rest. \<not> is_write ev \<and> ev \<noteq> Toast_error ''Please wait 1 hour between claims''"
    using claim_insert_log by blast
  with None show ?thesis
    by (simp add: claim_update_unfold Let_def)
next
  case (Some m)
  then show ?thesis
    by (simp add: claim_update_unfold Let_def catch_block_simps)
qed

lemma claim_update_store:
  "store (claim_update e c w) =
     (case update_fault e of
        Some m \<Rightarrow> store w
      | None \<Rightarrow> snd (insert_claim (insert_fault e) (row_id e) (db_now e) (id_coupon c)
                       (fst (ensure_browser_id (random_uuid e) (localStorage w))) ''client-ip''
                       (snd (update_coupon None (id_coupon c) (store w)))))"
  by (cases "update_fault e")
     (simp_all add: claim_update_unfold Let_def catch_block_simps claim_insert_store update_coupon_def)

lemma claim_update_claims_tbl:
  "claims_tbl (store (claim_update e c w)) = claims_tbl (store w) \<or>
   claims_tbl (store (claim_update e c w)) = claims_tbl (store w) @ [new_claim e c (localStorage w)]"
  by (cases "update_fault e")
     (simp_all add: claim_update_store insert_claim_claims update_coupon_simps new_claim_def)

lemma claim_update_coupons_tbl:
  "coupons_tbl (store (claim_update e c w)) =
     (if update_fault e = None
      then rls_update (\<lambda>r. id_coupon r = id_coupon c) (\<lambda>r. r\<lparr>is_claimed := True\<rparr>) (coupons_tbl (store w))
      else coupons_tbl (store w))"
  by (cases "update_fault e")
     (simp_all add: claim_update_store insert_claim_coupons update_coupon_simps)

lemma claim_resume_store_refused:
  "rate_limited (select_recent_claim (recent_fault e) (store w)) (now_claim e) = Some t \<Longrightarrow>
   store (claim_resume e snap c w) = store w"
  by (simp add: claim_resume_refused)

lemma claim_resume_claims_tbl:
  "claims_tbl (store (claim_resume e snap c w)) = claims_tbl (store w) \<or>
   claims_tbl (store (claim_resume e snap c w)) = claims_tbl (store w) @ [new_claim e c (localStorage w)]"
proof (cases "rate_limited (select_recent_claim (recent_fault e) (store w)) (now_claim e)")
  case None
  then show ?thesis
    using claim_update_claims_tbl[of e c "emit Select_recent_claim w"]
    by (simp add: claim_resume_permitted emit_simps)
next
  case (Some t)
  then show ?thesis by (simp add: claim_resume_store_refused)
qed

lemma claim_begin_in_flight:
  "\<not> claiming (ui w) \<Longrightarrow> availableCoupon (coupons (ui w)) = Some c \<Longrightarrow>
   claim_begin w = (w\<lparr>ui := (ui w)\<lparr>claiming := True\<rparr>\<rparr>, Some c)"
  by (simp add: claim_begin_def)

text \<open>The handler only appends to the log; \<open>issued\<close> is what it appends.\<close>

lemma log_claimCoupon: "log (claimCoupon e w) = log w @ issued e w"
proof -
  have "\<exists>evs. log (claimCoupon e w) = log w @ evs"
  proof (cases "claiming (ui w)")
    case True
    then show ?thesis by (simp add: claimCoupon_in_flight)
  next
    case False
    show ?thesis
    proof (cases "availableCoupon (coupons (ui w))")
      case None
      with False show ?thesis by (simp add: claimCoupon_none emit_simps)
    next
      case (Some c)
      let ?w1 = "w\<lparr>ui := (ui w)\<lparr>claiming := True\<rparr>\<rparr>"
      show ?thesis
      proof (cases "rate_limited (select_recent_claim (recent_fault e) (store ?w1)) (now_claim e)")
        case None
        obtain rest where "log (claim_update e c (emit Select_recent_claim ?w1)) =
            log (emit Select_recent_claim ?w1) @ Update_coupon (id_coupon c) # rest"
          using claim_update_log by blast
        with None Some False show ?thesis
          by (simp add: claimCoupon_some claim_resume_permitted emit_simps)
      next
        case (Some t)
        with \<open>availableCoupon (coupons (ui w)) = Some c\<close> False show ?thesis
          by (simp add: claimCoupon_some claim_resume_refused)
      qed
    qed
  qed
  then show ?thesis by (auto simp: issued_def)
qed


section \<open>No coupon available\<close>

text \<open>
  Claim C5. When every coupon of the list held by the component is claimed, a run of the
  handler issues no request and leaves the tables and \<^verbatim>\<open>localStorage\<close> as they are; a
  claim attempt (a run that is not cut short by the in-flight guard of line 81) ends
  with the notification "No coupons available" and nothing else, the component state
  being as before.
\<close>

theorem no_coupons_available:
  assumes "\<forall>c \<in> set (coupons (ui w)). is_claimed c"
  shows "store (claimCoupon e w) = store w
       \<and> localStorage (claimCoupon e w) = localStorage w
       \<and> (\<forall>ev \<in> set (issued e w). \<not> is_write ev)
       \<and> (\<not> claiming (ui w) \<longrightarrow>
            claimCoupon e w = emit (Toast_error ''No coupons available'') w
            \<and> issued e w = [Toast_error ''No coupons available'']
            \<and> ui (claimCoupon e w) = ui w)"
proof (cases "claiming (ui w)")
  case True
  then show ?thesis
    by (simp add: claimCoupon_in_flight issued_def)
next
  case False
  from assms have "availableCoupon (coupons (ui w)) = None"
    by (simp add: availableCoupon_None_iff)
  with False have "claimCoupon e w = emit (Toast_error ''No coupons available'') w"
    by (simp add: claimCoupon_none)
  then show ?thesis
    by (simp add: issued_def emit_simps is_write_def)
qed

theorem no_coupons_available_witness:
  "issued (mk_env 5000) world_all_claimed = [Toast_error ''No coupons available'']
   \<and> store (claimCoupon (mk_env 5000) world_all_claimed) = store world_all_claimed"
proof -
  have h1: "\<forall>c \<in> set (coupons (ui world_all_claimed)). is_claimed c"
    by (simp add: world_all_claimed_def mk_world_def mk_coupon_def)
  have h2: "\<not> claiming (ui world_all_claimed)"
    by (simp add: world_all_claimed_def mk_world_def)
  note t = no_coupons_available[OF h1, of "mk_env 5000"]
  from t[THEN conjunct2, THEN conjunct2, THEN conjunct2, THEN mp, OF h2]
  have "issued (mk_env 5000) world_all_claimed = [Toast_error ''No coupons available'']"
    by (elim conjE)
  moreover from t have "store (claimCoupon (mk_env 5000) world_all_claimed) = store world_all_claimed"
    by (rule conjunct1)
  ultimately show ?thesis by (rule conjI)
qed

section \<open>A claim in flight\<close>

lemma rls_update_ids: "id_coupon ` set (rls_update wh (\<lambda>r. r\<lparr>is_claimed := True\<rparr>) tbl) = id_coupon ` set tbl"
  by (induction tbl) (auto simp: rls_update_def)

lemma claim_update_success:
  assumes "update_fault e = None" and "insert_fault e = None"
    and "id_coupon c \<in> id_coupon ` set (coupons_tbl (store w))"
    and "row_id e \<notin> id_claim ` set (claims_tbl (store w))"
  shows "claims_tbl (store (claim_update e c w)) = claims_tbl (store w) @ [new_claim e c (localStorage w)]"
  using assms
  by (simp add: claim_update_store insert_claim_def update_coupon_def succeeded_def rls_update_ids new_claim_def)

lemma claim_resume_success:
  assumes "rate_limited (select_recent_claim (recent_fault e) (store w)) (now_claim e) = None"
    and "update_fault e = None" and "insert_fault e = None"
    and "id_coupon c \<in> id_coupon ` set (coupons_tbl (store w))"
    and "row_id e \<notin> id_claim ` set (claims_tbl (store w))"
  shows "claims_tbl (store (claim_resume e snap c w)) = claims_tbl (store w) @ [new_claim e c (localStorage w)]"
  using assms claim_update_success[of e c "emit Select_recent_claim w"]
  by (simp add: claim_resume_permitted emit_simps)

text \<open>
  Claim C4. A run of the handler that finds the flag \<open>claiming\<close> set returns at once: it
  issues no request and changes nothing. The flag is set when the first handler reaches
  its first \<^verbatim>\<open>await\<close> and is reset only in its \<^verbatim>\<open>finally\<close> block. So a
  second click that arrives while the first handler waits adds nothing to what the
  first click does alone: the claims table grows by at most one row, and by exactly one
  (the row of the first click) when the first click passes the rate limit and its two
  writes succeed.
\<close>

theorem in_flight_guard:
  assumes "\<not> claiming (ui w)" and "availableCoupon (coupons (ui w)) = Some c"
  shows "(\<forall>w'. claiming (ui w') \<longrightarrow> claimCoupon e2 w' = w' \<and> issued e2 w' = [])
       \<and> claiming (ui (fst (claim_begin w)))
       \<and> claimCoupon e2 (fst (claim_begin w)) = fst (claim_begin w)
       \<and> issued e2 (fst (claim_begin w)) = []
       \<and> two_clicks e1 e2 w = claimCoupon e1 w
       \<and> (claims_tbl (store (two_clicks e1 e2 w)) = claims_tbl (store w) \<or>
          claims_tbl (store (two_clicks e1 e2 w)) = claims_tbl (store w) @ [new_claim e1 c (localStorage w)])
       \<and> (rate_limited (select_recent_claim (recent_fault e1) (store w)) (now_claim e1) = None \<and>
          update_fault e1 = None \<and> insert_fault e1 = None \<and>
          id_coupon c \<in> id_coupon ` set (coupons_tbl (store w)) \<and>
          row_id e1 \<notin> id_claim ` set (claims_tbl (store w))
          \<longrightarrow> claims_tbl (store (two_clicks e1 e2 w)) = claims_tbl (store w) @ [new_claim e1 c (localStorage w)])"
proof -
  let ?w1 = "w\<lparr>ui := (ui w)\<lparr>claiming := True\<rparr>\<rparr>"
  from assms have b: "claim_begin w = (?w1, Some c)" by (rule claim_begin_in_flight)
  have fl: "claiming (ui ?w1)" by simp
  then have noop: "claimCoupon e2 ?w1 = ?w1" by (rule claimCoupon_in_flight)
  have two: "two_clicks e1 e2 w = claim_resume e1 (ui w) c ?w1"
    by (simp add: two_clicks_def b noop)
  have one: "claimCoupon e1 w = claim_resume e1 (ui w) c ?w1"
    using assms by (rule claimCoupon_some)
  have tbl: "claims_tbl (store (claim_resume e1 (ui w) c ?w1)) = claims_tbl (store w) \<or>
        claims_tbl (store (claim_resume e1 (ui w) c ?w1)) = claims_tbl (store w) @ [new_claim e1 c (localStorage w)]"
    using claim_resume_claims_tbl[of e1 "ui w" c ?w1] by simp
  have ok: "claims_tbl (store (claim_resume e1 (ui w) c ?w1)) = claims_tbl (store w) @ [new_claim e1 c (localStorage w)]"
    if "rate_limited (select_recent_claim (recent_fault e1) (store w)) (now_claim e1) = None"
      "update_fault e1 = None" "insert_fault e1 = None"
      "id_coupon c \<in> id_coupon ` set (coupons_tbl (store w))"
      "row_id e1 \<notin> id_claim ` set (claims_tbl (store w))"
    using that claim_resume_success[of e1 ?w1 c "ui w"] by simp
  have gen: "\<forall>w'. claiming (ui w') \<longrightarrow> claimCoupon e2 w' = w' \<and> issued e2 w' = []"
    by (simp add: claimCoupon_in_flight issued_def)
  have rest: "claiming (ui (fst (claim_begin w)))
       \<and> claimCoupon e2 (fst (claim_begin w)) = fst (claim_begin w)
       \<and> issued e2 (fst (claim_begin w)) = []
       \<and> two_clicks e1 e2 w = claimCoupon e1 w
       \<and> (claims_tbl (store (two_clicks e1 e2 w)) = claims_tbl (store w) \<or>
          claims_tbl (store (two_clicks e1 e2 w)) = claims_tbl (store w) @ [new_claim e1 c (localStorage w)])
       \<and> (rate_limited (select_recent_claim (recent_fault e1) (store w)) (now_claim e1) = None \<and>
          update_fault e1 = None \<and> insert_fault e1 = None \<and>
          id_coupon c \<in> id_coupon ` set (coupons_tbl (store w)) \<and>
          row_id e1 \<notin> id_claim ` set (claims_tbl (store w))
          \<longrightarrow> claims_tbl (store (two_clicks e1 e2 w)) = claims_tbl (store w) @ [new_claim e1 c (localStorage w)])"
    using fl noop two one tbl ok by (simp add: b issued_def)
  from gen rest show ?thesis by (rule conjI)
qed

lemma available_one_free:
  "availableCoupon (coupons (ui world_one_free)) = Some (mk_coupon ''c-2'' ''FREESHIP'' False 0)"
  by (simp add: world_one_free_def mk_world_def mk_coupon_def availableCoupon_def)

lemma not_claiming_one_free: "\<not> claiming (ui world_one_free)"
  by (simp add: world_one_free_def mk_world_def)

lemma recent_one_free:
  "rate_limited (select_recent_claim (recent_fault (mk_env now)) (store world_one_free)) (now_claim (mk_env now)) = None"
  by (simp add: world_one_free_def mk_world_def mk_env_def select_recent_claim_def succeeded_def
        rate_limited_def)

theorem in_flight_guard_witness:
  "claiming (ui (fst (claim_begin world_one_free)))
   \<and> claimCoupon (mk_env 6000) (fst (claim_begin world_one_free)) = fst (claim_begin world_one_free)
   \<and> two_clicks (mk_env 5000) (mk_env 6000) world_one_free = claimCoupon (mk_env 5000) world_one_free
   \<and> claims_tbl (store (two_clicks (mk_env 5000) (mk_env 6000) world_one_free)) =
       [mk_claim ''claim-A'' ''c-2'' ''browser-A'' 5000]"
proof -
  have ok: "update_fault (mk_env 5000) = None \<and> insert_fault (mk_env 5000) = None \<and>
      id_coupon (mk_coupon ''c-2'' ''FREESHIP'' False 0) \<in> id_coupon ` set (coupons_tbl (store world_one_free)) \<and>
      row_id (mk_env 5000) \<notin> id_claim ` set (claims_tbl (store world_one_free))"
    by (simp add: mk_env_def world_one_free_def mk_world_def mk_coupon_def)
  have row: "claims_tbl (store world_one_free) @
      [new_claim (mk_env 5000) (mk_coupon ''c-2'' ''FREESHIP'' False 0) (localStorage world_one_free)] =
      [mk_claim ''claim-A'' ''c-2'' ''browser-A'' 5000]"
    by (simp add: new_claim_def mk_env_def world_one_free_def mk_world_def mk_coupon_def mk_claim_def
          ensure_browser_id_def)
  note g = in_flight_guard[OF not_claiming_one_free available_one_free, of "mk_env 6000" "mk_env 5000",
      THEN conjunct2]
  from g ok recent_one_free[of 5000]
  have "claims_tbl (store (two_clicks (mk_env 5000) (mk_env 6000) world_one_free)) =
      claims_tbl (store world_one_free) @
      [new_claim (mk_env 5000) (mk_coupon ''c-2'' ''FREESHIP'' False 0) (localStorage world_one_free)]"
    by blast
  then have "claims_tbl (store (two_clicks (mk_env 5000) (mk_env 6000) world_one_free)) =
      [mk_claim ''claim-A'' ''c-2'' ''browser-A'' 5000]"
    using row by (rule trans)
  with g show ?thesis by blast
qed


section \<open>Refused and permitted attempts\<close>

lemma issued_refused:
  assumes "\<not> claiming (ui w)" and "availableCoupon (coupons (ui w)) = Some c"
    and "rate_limited (select_recent_claim (recent_fault e) (store w)) (now_claim e) = Some t"
  shows "claimCoupon e w =
    w\<lparr>ui := (updateTimeLeft (nextClaimTime (ui w)) (now_tick e)
               ((ui w)\<lparr>nextClaimTime := Some (t + cooldown)\<rparr>))\<lparr>claiming := False\<rparr>,
      log := log w @ [Select_recent_claim, Toast_error ''Please wait 1 hour between claims'']\<rparr>"
proof -
  let ?w1 = "w\<lparr>ui := (ui w)\<lparr>claiming := True\<rparr>\<rparr>"
  have "rate_limited (select_recent_claim (recent_fault e) (store ?w1)) (now_claim e) = Some t"
    using assms(3) by simp
  then have "claim_resume e (ui w) c ?w1 =
    ?w1\<lparr>ui := (updateTimeLeft (nextClaimTime (ui w)) (now_tick e)
               ((ui ?w1)\<lparr>nextClaimTime := Some (t + cooldown)\<rparr>))\<lparr>claiming := False\<rparr>,
      log := log ?w1 @ [Select_recent_claim, Toast_error ''Please wait 1 hour between claims'']\<rparr>"
    by (rule claim_resume_refused)
  moreover have "(updateTimeLeft n t' (s\<lparr>claiming := True, nextClaimTime := x\<rparr>))\<lparr>claiming := False\<rparr> =
      (updateTimeLeft n t' (s\<lparr>nextClaimTime := x\<rparr>))\<lparr>claiming := False\<rparr>" for n t' s x
    by (simp add: updateTimeLeft_def Let_def split: option.splits)
  ultimately show ?thesis
    using assms(1,2) by (simp add: claimCoupon_some)
qed

lemma claimCoupon_permitted:
  assumes "\<not> claiming (ui w)" and "availableCoupon (coupons (ui w)) = Some c"
    and "rate_limited (select_recent_claim (recent_fault e) (store w)) (now_claim e) = None"
  shows "claimCoupon e w = claim_update e c (emit Select_recent_claim (w\<lparr>ui := (ui w)\<lparr>claiming := True\<rparr>\<rparr>))"
  using assms by (simp add: claimCoupon_some claim_resume_permitted)

lemma issued_permitted:
  assumes "\<not> claiming (ui w)" and "availableCoupon (coupons (ui w)) = Some c"
    and "rate_limited (select_recent_claim (recent_fault e) (store w)) (now_claim e) = None"
  shows "\<exists>rest. issued e w = Select_recent_claim # Update_coupon (id_coupon c) # rest \<and>
     (update_fault e \<noteq> None \<longrightarrow> rest = [Toast_error ''Failed to claim coupon'', Console_error]) \<and>
     (update_fault e = None \<longrightarrow>
        (\<exists>rest'. rest = Insert_claim (id_coupon c)
                        (fst (ensure_browser_id (random_uuid e) (localStorage w))) ''client-ip'' # rest'
                    \<and> (\<forall>ev \<in> set rest'. \<not> is_write ev \<and>
                          ev \<noteq> Toast_error ''Please wait 1 hour between claims'')))"
proof -
  let ?w1 = "emit Select_recent_claim (w\<lparr>ui := (ui w)\<lparr>claiming := True\<rparr>\<rparr>)"
  have ls: "localStorage ?w1 = localStorage w" and lg: "log ?w1 = log w @ [Select_recent_claim]"
    by (simp_all add: emit_simps)
  from claim_update_log[of e c ?w1] obtain rest where
    rc: "log (claim_update e c ?w1) = log ?w1 @ Update_coupon (id_coupon c) # rest \<and>
     (update_fault e \<noteq> None \<longrightarrow> rest = [Toast_error ''Failed to claim coupon'', Console_error]) \<and>
     (update_fault e = None \<longrightarrow>
        (\<exists>rest'. rest = Insert_claim (id_coupon c)
                        (fst (ensure_browser_id (random_uuid e) (localStorage ?w1))) ''client-ip'' # rest'
                    \<and> (\<forall>ev \<in> set rest'. \<not> is_write ev \<and>
                          ev \<noteq> Toast_error ''Please wait 1 hour between claims'')))" ..
  then have i: "issued e w = Select_recent_claim # Update_coupon (id_coupon c) # rest"
    by (simp add: issued_def claimCoupon_permitted[OF assms] lg)
  from rc have c: "(update_fault e \<noteq> None \<longrightarrow> rest = [Toast_error ''Failed to claim coupon'', Console_error]) \<and>
     (update_fault e = None \<longrightarrow>
        (\<exists>rest'. rest = Insert_claim (id_coupon c)
                        (fst (ensure_browser_id (random_uuid e) (localStorage w))) ''client-ip'' # rest'
                    \<and> (\<forall>ev \<in> set rest'. \<not> is_write ev \<and>
                          ev \<noteq> Toast_error ''Please wait 1 hour between claims'')))"
    unfolding ls by (rule conjunct2)
  from i c show ?thesis by (intro exI[of _ rest] conjI) simp_all
qed


section \<open>Failure of the insert\<close>

lemma rls_update_marks:
  "\<forall>r \<in> set (rls_update (\<lambda>r. id_coupon r = cid) (\<lambda>r. r\<lparr>is_claimed := True\<rparr>) tbl).
     id_coupon r = cid \<longrightarrow> is_claimed r"
proof (intro ballI impI)
  fix r
  assume m: "r \<in> set (rls_update (\<lambda>r. id_coupon r = cid) (\<lambda>r. r\<lparr>is_claimed := True\<rparr>) tbl)"
    and i: "id_coupon r = cid"
  from m obtain r0 where
    r: "r = (if id_coupon r0 = cid \<and> update_using r0 \<and> update_with_check (r0\<lparr>is_claimed := True\<rparr>)
             then r0\<lparr>is_claimed := True\<rparr> else r0)"
    unfolding rls_update_def set_map by (rule imageE)
  show "is_claimed r"
  proof (cases "id_coupon r0 = cid \<and> \<not> is_claimed r0")
    case True
    then have "r = r0\<lparr>is_claimed := True\<rparr>"
      unfolding r by (simp add: update_using_def update_with_check_def)
    then show ?thesis by simp
  next
    case False
    then have "r = r0"
      unfolding r by (simp add: update_using_def update_with_check_def)
    with i False show ?thesis by simp
  qed
qed

text \<open>
  Claim C2. When the update of the coupon succeeds and the insert of the claim fails,
  the handler ends with the coupon marked claimed in the store and the claims table as
  it was (so no claim refers to the coupon unless one did before); after the failed
  insert it issues no further request, only the notification "Failed to claim coupon"
  and a console message.
\<close>

theorem partial_failure_no_rollback:
  assumes "\<not> claiming (ui w)" and "availableCoupon (coupons (ui w)) = Some c"
    and "rate_limited (select_recent_claim (recent_fault e) (store w)) (now_claim e) = None"
    and "update_fault e = None" and "insert_fault e = Some msg"
  shows "coupons_tbl (store (claimCoupon e w)) =
           rls_update (\<lambda>r. id_coupon r = id_coupon c) (\<lambda>r. r\<lparr>is_claimed := True\<rparr>) (coupons_tbl (store w))
       \<and> (\<forall>r \<in> set (coupons_tbl (store (claimCoupon e w))). id_coupon r = id_coupon c \<longrightarrow> is_claimed r)
       \<and> claims_tbl (store (claimCoupon e w)) = claims_tbl (store w)
       \<and> (id_coupon c \<notin> coupon_id ` set (claims_tbl (store w)) \<longrightarrow>
            id_coupon c \<notin> coupon_id ` set (claims_tbl (store (claimCoupon e w))))
       \<and> issued e w =
           [Select_recent_claim, Update_coupon (id_coupon c),
            Insert_claim (id_coupon c) (fst (ensure_browser_id (random_uuid e) (localStorage w))) ''client-ip'',
            Toast_error ''Failed to claim coupon'', Console_error]
       \<and> \<not> claiming (ui (claimCoupon e w))"
proof -
  let ?w1 = "emit Select_recent_claim (w\<lparr>ui := (ui w)\<lparr>claiming := True\<rparr>\<rparr>)"
  let ?b = "fst (ensure_browser_id (random_uuid e) (localStorage w))"
  let ?upd = "rls_update (\<lambda>r. id_coupon r = id_coupon c) (\<lambda>r. r\<lparr>is_claimed := True\<rparr>) (coupons_tbl (store w))"
  have cc: "claimCoupon e w = claim_update e c ?w1"
    using assms(1-3) by (rule claimCoupon_permitted)
  have st: "store (claimCoupon e w) = (store w)\<lparr>coupons_tbl := ?upd\<rparr>"
    using assms(4,5)
    by (simp add: cc claim_update_store insert_claim_def update_coupon_def emit_simps)
  have co: "coupons_tbl (store (claimCoupon e w)) = ?upd" and cl: "claims_tbl (store (claimCoupon e w)) = claims_tbl (store w)"
    by (simp_all add: st)
  have mk: "\<forall>r \<in> set (coupons_tbl (store (claimCoupon e w))). id_coupon r = id_coupon c \<longrightarrow> is_claimed r"
    unfolding co by (rule rls_update_marks)
  have lg: "log (claimCoupon e w) = log w @
           [Select_recent_claim, Update_coupon (id_coupon c),
            Insert_claim (id_coupon c) ?b ''client-ip'',
            Toast_error ''Failed to claim coupon'', Console_error]"
    using assms(4,5)
    by (simp add: cc claim_update_unfold Let_def claim_insert_failed insert_claim_def failed_def emit_simps)
  then have iss: "issued e w =
           [Select_recent_claim, Update_coupon (id_coupon c),
            Insert_claim (id_coupon c) ?b ''client-ip'',
            Toast_error ''Failed to claim coupon'', Console_error]"
    by (simp add: issued_def)
  have fl: "\<not> claiming (ui (claimCoupon e w))"
    using assms(4,5)
    by (simp add: cc claim_update_unfold Let_def claim_insert_failed insert_claim_def failed_def)
  from co mk cl iss fl show ?thesis by simp
qed

lemma insert_fault_one_free:
  "rate_limited (select_recent_claim (recent_fault ((mk_env 5000)\<lparr>insert_fault := Some ''network''\<rparr>))
      (store world_one_free)) (now_claim ((mk_env 5000)\<lparr>insert_fault := Some ''network''\<rparr>)) = None"
  using recent_one_free[of 5000] by (simp add: mk_env_def)

theorem partial_failure_no_rollback_witness:
  "coupons_tbl (store (claimCoupon ((mk_env 5000)\<lparr>insert_fault := Some ''network''\<rparr>) world_one_free)) =
     [mk_coupon ''c-1'' ''SAVE10'' True 0, mk_coupon ''c-2'' ''FREESHIP'' True 0]
   \<and> claims_tbl (store (claimCoupon ((mk_env 5000)\<lparr>insert_fault := Some ''network''\<rparr>) world_one_free)) = []
   \<and> issued ((mk_env 5000)\<lparr>insert_fault := Some ''network''\<rparr>) world_one_free =
       [Select_recent_claim, Update_coupon ''c-2'', Insert_claim ''c-2'' ''browser-A'' ''client-ip'',
        Toast_error ''Failed to claim coupon'', Console_error]"
proof -
  have f: "update_fault ((mk_env 5000)\<lparr>insert_fault := Some ''network''\<rparr>) = None"
    "insert_fault ((mk_env 5000)\<lparr>insert_fault := Some ''network''\<rparr>) = Some ''network''"
    by (simp_all add: mk_env_def)
  note t = partial_failure_no_rollback[OF not_claiming_one_free available_one_free insert_fault_one_free f]
  have u: "rls_update (\<lambda>r. id_coupon r = ''c-2'')
        (\<lambda>r. r\<lparr>is_claimed := True\<rparr>) (coupons_tbl (store world_one_free)) =
      [mk_coupon ''c-1'' ''SAVE10'' True 0, mk_coupon ''c-2'' ''FREESHIP'' True 0]"
    by (simp add: rls_update_def update_using_def update_with_check_def world_one_free_def
          mk_world_def mk_coupon_def)
  have c: "claims_tbl (store world_one_free) = []"
    by (simp add: world_one_free_def mk_world_def)
  have b: "fst (ensure_browser_id (random_uuid ((mk_env 5000)\<lparr>insert_fault := Some ''network''\<rparr>))
        (localStorage world_one_free)) = ''browser-A''"
    by (simp add: ensure_browser_id_def world_one_free_def mk_world_def mk_env_def)
  have i: "id_coupon (mk_coupon ''c-2'' ''FREESHIP'' False 0) = ''c-2''"
    by (simp add: mk_coupon_def)
  from t show ?thesis unfolding u c b i by simp
qed


section \<open>Failure of the most-recent-claim query\<close>

lemma rate_limited_no_data:
  "f \<noteq> None \<or> claims_tbl d = [] \<Longrightarrow> rate_limited (select_recent_claim f d) now = None"
  by (cases f) (auto simp: rate_limited_def select_recent_claim_def failed_def succeeded_def)

lemma rate_limited_ignores_error: "rate_limited (r\<lparr>error := x\<rparr>) now = rate_limited r now"
  by (simp add: rate_limited_def)

lemma claimCoupon_success_claims:
  assumes "\<not> claiming (ui w)" and "availableCoupon (coupons (ui w)) = Some c"
    and "rate_limited (select_recent_claim (recent_fault e) (store w)) (now_claim e) = None"
    and "update_fault e = None" and "insert_fault e = None"
    and "id_coupon c \<in> id_coupon ` set (coupons_tbl (store w))"
    and "row_id e \<notin> id_claim ` set (claims_tbl (store w))"
  shows "claims_tbl (store (claimCoupon e w)) = claims_tbl (store w) @ [new_claim e c (localStorage w)]"
  using assms(3-7) claim_resume_success[of e "w\<lparr>ui := (ui w)\<lparr>claiming := True\<rparr>\<rparr>" c "ui w"]
  by (simp add: claimCoupon_some[OF assms(1,2)])

text \<open>
  Claim C10. The handler reads only the rows of the most-recent-claim query, never its
  error. When the query fails, or returns no row, an attempt that is not in flight and
  has a coupon to claim is not refused: after the query the handler goes on to the
  update of the coupon and, if that succeeds, to the insert of the claim, it shows no
  "Please wait" notification, and with no further failure the claim is recorded,
  whatever the instant of the last claim in the store.
\<close>

theorem recent_query_failure_skips_rate_limit:
  assumes "\<not> claiming (ui w)" and "availableCoupon (coupons (ui w)) = Some c"
    and "recent_fault e \<noteq> None \<or> claims_tbl (store w) = []"
  shows "rate_limited (select_recent_claim (recent_fault e) (store w)) (now_claim e) = None
       \<and> rate_limited (r\<lparr>error := x\<rparr>) t = rate_limited r t
       \<and> (\<exists>rest. issued e w = Select_recent_claim # Update_coupon (id_coupon c) # rest \<and>
            (update_fault e = None \<longrightarrow>
              (\<exists>rest'. rest = Insert_claim (id_coupon c)
                         (fst (ensure_browser_id (random_uuid e) (localStorage w))) ''client-ip'' # rest')))
       \<and> Toast_error ''Please wait 1 hour between claims'' \<notin> set (issued e w)
       \<and> (update_fault e = None \<and> insert_fault e = None \<and>
          id_coupon c \<in> id_coupon ` set (coupons_tbl (store w)) \<and>
          row_id e \<notin> id_claim ` set (claims_tbl (store w))
          \<longrightarrow> claims_tbl (store (claimCoupon e w)) = claims_tbl (store w) @ [new_claim e c (localStorage w)])"
proof -
  have rl: "rate_limited (select_recent_claim (recent_fault e) (store w)) (now_claim e) = None"
    using assms(3) by (rule rate_limited_no_data)
  from issued_permitted[OF assms(1,2) rl] obtain rest where
    i: "issued e w = Select_recent_claim # Update_coupon (id_coupon c) # rest"
    and f: "update_fault e \<noteq> None \<longrightarrow> rest = [Toast_error ''Failed to claim coupon'', Console_error]"
    and g: "update_fault e = None \<longrightarrow>
        (\<exists>rest'. rest = Insert_claim (id_coupon c)
                        (fst (ensure_browser_id (random_uuid e) (localStorage w))) ''client-ip'' # rest'
                    \<and> (\<forall>ev \<in> set rest'. \<not> is_write ev \<and>
                          ev \<noteq> Toast_error ''Please wait 1 hour between claims''))"
    by (elim exE conjE)
  have nt: "Toast_error ''Please wait 1 hour between claims'' \<notin> set rest"
  proof (cases "update_fault e")
    case None
    with g obtain rest' where "rest = Insert_claim (id_coupon c)
          (fst (ensure_browser_id (random_uuid e) (localStorage w))) ''client-ip'' # rest'"
      and "\<forall>ev \<in> set rest'. ev \<noteq> Toast_error ''Please wait 1 hour between claims''"
      by auto
    then show ?thesis by auto
  next
    case (Some m)
    with f show ?thesis by simp
  qed
  have a: "\<exists>rest. issued e w = Select_recent_claim # Update_coupon (id_coupon c) # rest \<and>
            (update_fault e = None \<longrightarrow>
              (\<exists>rest'. rest = Insert_claim (id_coupon c)
                         (fst (ensure_browser_id (random_uuid e) (localStorage w))) ''client-ip'' # rest'))"
    using i g by (intro exI[of _ rest]) auto
  have b: "Toast_error ''Please wait 1 hour between claims'' \<notin> set (issued e w)"
    using nt by (simp add: i)
  have s: "claims_tbl (store (claimCoupon e w)) = claims_tbl (store w) @ [new_claim e c (localStorage w)]"
    if "update_fault e = None" "insert_fault e = None"
      "id_coupon c \<in> id_coupon ` set (coupons_tbl (store w))"
      "row_id e \<notin> id_claim ` set (claims_tbl (store w))"
    using claimCoupon_success_claims[OF assms(1,2) rl that] .
  from rl a b s show ?thesis
    by (simp add: rate_limited_ignores_error)
qed

lemma not_claiming_recent_claim: "\<not> claiming (ui world_recent_claim)"
  by (simp add: world_recent_claim_def mk_world_def)

lemma available_recent_claim:
  "availableCoupon (coupons (ui world_recent_claim)) = Some (mk_coupon ''c-2'' ''FREESHIP'' False 0)"
  by (simp add: world_recent_claim_def mk_world_def mk_coupon_def availableCoupon_def)

theorem recent_query_failure_skips_rate_limit_witness:
  "claims_tbl (store (claimCoupon ((mk_env 60000)\<lparr>recent_fault := Some ''network''\<rparr>) world_recent_claim)) =
     [mk_claim ''claim-0'' ''c-1'' ''browser-B'' 0, mk_claim ''claim-A'' ''c-2'' ''browser-A'' 60000]
   \<and> Toast_error ''Please wait 1 hour between claims'' \<notin>
       set (issued ((mk_env 60000)\<lparr>recent_fault := Some ''network''\<rparr>) world_recent_claim)"
proof -
  let ?e = "(mk_env 60000)\<lparr>recent_fault := Some ''network''\<rparr>"
  have h: "recent_fault ?e \<noteq> None \<or> claims_tbl (store world_recent_claim) = []"
    by (simp add: mk_env_def)
  note t = recent_query_failure_skips_rate_limit[OF not_claiming_recent_claim available_recent_claim h]
  have ok: "update_fault ?e = None \<and> insert_fault ?e = None \<and>
      id_coupon (mk_coupon ''c-2'' ''FREESHIP'' False 0) \<in> id_coupon ` set (coupons_tbl (store world_recent_claim)) \<and>
      row_id ?e \<notin> id_claim ` set (claims_tbl (store world_recent_claim))"
    by (simp add: mk_env_def world_recent_claim_def mk_world_def mk_coupon_def mk_claim_def)
  have row: "claims_tbl (store world_recent_claim) @
      [new_claim ?e (mk_coupon ''c-2'' ''FREESHIP'' False 0) (localStorage world_recent_claim)] =
      [mk_claim ''claim-0'' ''c-1'' ''browser-B'' 0, mk_claim ''claim-A'' ''c-2'' ''browser-A'' 60000]"
    by (simp add: new_claim_def mk_env_def world_recent_claim_def mk_world_def mk_coupon_def mk_claim_def
          ensure_browser_id_def)
  note tl = t[THEN conjunct2, THEN conjunct2, THEN conjunct2]
  from tl[THEN conjunct2, THEN mp, OF ok]
  have "claims_tbl (store (claimCoupon ?e world_recent_claim)) =
      [mk_claim ''claim-0'' ''c-1'' ''browser-B'' 0, mk_claim ''claim-A'' ''c-2'' ''browser-A'' 60000]"
    using row by (rule trans)
  moreover from tl have "Toast_error ''Please wait 1 hour between claims'' \<notin> set (issued ?e world_recent_claim)"
    by (rule conjunct1)
  ultimately show ?thesis by (rule conjI)
qed


section \<open>The most recent claim\<close>

lemma sorted_last_Max:
  fixes ys :: "int list"
  assumes "sorted ys" and "ys \<noteq> []"
  shows "last ys = Max (set ys)"
proof -
  have "y \<le> last ys" if "y \<in> set ys" for y
  proof -
    from that obtain i where i: "i < length ys" and y: "y = ys ! i"
      by (auto simp: in_set_conv_nth)
    have "ys ! i \<le> ys ! (length ys - 1)"
      using assms(1) i by (intro sorted_nth_mono) auto
    then show ?thesis
      using assms(2) y by (simp add: last_conv_nth)
  qed
  then show ?thesis
    using assms(2) by (intro Max_eqI[symmetric]) auto
qed

lemma recent_rows:
  "map claimed_at (take 1 (rev (sort_key claimed_at cl))) =
     (if cl = [] then [] else [Max (claimed_at ` set cl)])"
proof (cases "cl = []")
  case True
  then show ?thesis by simp
next
  case False
  let ?ys = "map claimed_at (sort_key claimed_at cl)"
  have ne: "?ys \<noteq> []"
  proof
    assume "?ys = []"
    then have "length (sort_key claimed_at cl) = 0" by simp
    then have "length cl = 0" by (simp only: length_sort)
    with False show False by simp
  qed
  have "map claimed_at (take 1 (rev (sort_key claimed_at cl))) = take 1 (rev ?ys)"
    by (simp add: take_map rev_map)
  also have "\<dots> = [last ?ys]"
    using ne by (simp add: take_Suc hd_rev)
  also have "last ?ys = Max (set ?ys)"
    using ne by (intro sorted_last_Max) simp_all
  also have "set ?ys = claimed_at ` set cl"
    by simp
  finally show ?thesis using False by simp
qed

lemma select_recent_claim_data:
  "data (select_recent_claim None d) =
     Some (if claims_tbl d = [] then [] else [Max (claimed_at ` set (claims_tbl d))])"
  unfolding select_recent_claim_def recent_rows by (simp add: succeeded_def)

lemma rate_limited_store:
  assumes "claims_tbl d \<noteq> []"
  shows "rate_limited (select_recent_claim None d) now =
     (if now - Max (claimed_at ` set (claims_tbl d)) < cooldown
      then Some (Max (claimed_at ` set (claims_tbl d))) else None)"
  using assms by (simp add: rate_limited_def select_recent_claim_data hours_lt_one)


section \<open>The rate limit\<close>

text \<open>
  An attempt that reaches the check (no claim in flight, a coupon to claim) and whose
  query returns the instant \<open>t\<close> is refused when \<open>t\<close> is less than one hour old: it
  issues no write and leaves the tables and \<^verbatim>\<open>localStorage\<close> as they are. The countdown is
  set to \<open>t\<close> plus one hour when the instant captured by the handler is null or still
  ahead. From one hour on the attempt goes on to the update.
\<close>

lemma refused_within_the_hour:
  assumes "\<not> claiming (ui w)" and "availableCoupon (coupons (ui w)) = Some c"
    and "data (select_recent_claim (recent_fault e) (store w)) = Some (t # rest)"
    and "now_claim e - t < cooldown"
  shows "issued e w = [Select_recent_claim, Toast_error ''Please wait 1 hour between claims'']"
    and "store (claimCoupon e w) = store w"
    and "localStorage (claimCoupon e w) = localStorage w"
    and "ui (claimCoupon e w) =
           (updateTimeLeft (nextClaimTime (ui w)) (now_tick e)
              ((ui w)\<lparr>nextClaimTime := Some (t + cooldown)\<rparr>))\<lparr>claiming := False\<rparr>"
proof -
  have "rate_limited (select_recent_claim (recent_fault e) (store w)) (now_claim e) = Some t"
    using assms(3,4) by (simp add: rate_limited_Some_iff)
  note r = issued_refused[OF assms(1,2) this]
  show "issued e w = [Select_recent_claim, Toast_error ''Please wait 1 hour between claims'']"
    unfolding issued_def r by simp
  show "store (claimCoupon e w) = store w" unfolding r by simp
  show "localStorage (claimCoupon e w) = localStorage w" unfolding r by simp
  show "ui (claimCoupon e w) =
           (updateTimeLeft (nextClaimTime (ui w)) (now_tick e)
              ((ui w)\<lparr>nextClaimTime := Some (t + cooldown)\<rparr>))\<lparr>claiming := False\<rparr>"
    unfolding r by simp
qed

lemma refused_countdown_set:
  assumes "\<not> claiming (ui w)" and "availableCoupon (coupons (ui w)) = Some c"
    and "data (select_recent_claim (recent_fault e) (store w)) = Some (t # rest)"
    and "now_claim e - t < cooldown"
    and "nextClaimTime (ui w) = None \<or> (\<exists>n. nextClaimTime (ui w) = Some n \<and> now_tick e < n)"
  shows "nextClaimTime (ui (claimCoupon e w)) = Some (t + cooldown)"
  using assms(5)
  by (auto simp add: refused_within_the_hour(4)[OF assms(1-4)] updateTimeLeft_def Let_def)

lemma permitted_after_the_hour:
  assumes "\<not> claiming (ui w)" and "availableCoupon (coupons (ui w)) = Some c"
    and "data (select_recent_claim (recent_fault e) (store w)) = Some (t # rest)"
    and "cooldown \<le> now_claim e - t"
  shows "\<exists>evs. issued e w = Select_recent_claim # Update_coupon (id_coupon c) # evs"
proof -
  have "rate_limited (select_recent_claim (recent_fault e) (store w)) (now_claim e) = None"
    using assms(3,4) by (simp add: rate_limited_def hours_lt_one)
  from issued_permitted[OF assms(1,2) this] obtain evs where
    "issued e w = Select_recent_claim # Update_coupon (id_coupon c) # evs"
    by (elim exE conjE)
  then show ?thesis by (rule exI)
qed

lemma fifty_nine_and_sixty_one_minutes:
  assumes "\<not> claiming (ui w)" and "availableCoupon (coupons (ui w)) = Some c"
    and "data (select_recent_claim (recent_fault e) (store w)) = Some (t # rest)"
  shows "now_claim e = t + 59 * 60000 \<Longrightarrow>
           issued e w = [Select_recent_claim, Toast_error ''Please wait 1 hour between claims'']"
    and "now_claim e = t + 61 * 60000 \<Longrightarrow>
           \<exists>evs. issued e w = Select_recent_claim # Update_coupon (id_coupon c) # evs"
proof -
  show "issued e w = [Select_recent_claim, Toast_error ''Please wait 1 hour between claims'']"
    if "now_claim e = t + 59 * 60000"
    using that by (intro refused_within_the_hour(1)[OF assms]) (simp add: cooldown_def)
  show "\<exists>evs. issued e w = Select_recent_claim # Update_coupon (id_coupon c) # evs"
    if "now_claim e = t + 61 * 60000"
    using that by (intro permitted_after_the_hour[OF assms]) (simp add: cooldown_def)
qed


lemma ui_world_stale:
  "ui world_stale =
     \<lparr>coupons = coupons_tbl db_old, loading = False, claiming = False,
      nextClaimTime = Some 1700003600000, timeLeft = None\<rparr>"
proof -
  have f: "ui (fetchCoupons None (initial_world db_old)) =
      \<lparr>coupons = coupons_tbl db_old, loading = False, claiming = False,
       nextClaimTime = None, timeLeft = None\<rparr>"
    by (simp add: fetchCoupons_def select_coupons_def succeeded_def emit_def initial_world_def
          initial_state_def db_old_def mk_coupon_def)
  have d: "data (select_recent_claim None (store (fetchCoupons None (initial_world db_old)))) = Some [1700000000000]"
    by (simp add: select_recent_claim_data fetchCoupons_simps initial_world_def db_old_def mk_claim_def)
  have "ui (checkLastClaim None (fetchCoupons None (initial_world db_old))) =
      \<lparr>coupons = coupons_tbl db_old, loading = False, claiming = False,
       nextClaimTime = Some 1700003600000, timeLeft = None\<rparr>"
    by (simp add: checkLastClaim_def d emit_simps f cooldown_def)
  then show ?thesis
    by (simp add: world_stale_def run_def)
qed

lemma db_after_other_claim_eq:
  "db_after_other_claim =
     \<lparr>coupons_tbl = [mk_coupon ''c-1'' ''SAVE10'' True 1690000000000, mk_coupon ''c-2'' ''FREESHIP'' True 1690000000000,
                     mk_coupon ''c-3'' ''SPRING25'' False 1690000000000],
      claims_tbl = [mk_claim ''claim-0'' ''c-1'' ''browser-B'' 1700000000000,
                    mk_claim ''claim-C'' ''c-2'' ''browser-C'' 1700004000100]\<rparr>"
proof -
  let ?e = "(mk_env 1700004000100)\<lparr>random_uuid := ''browser-C'', row_id := ''claim-C''\<rparr>"
  let ?w = "mk_world (coupons_tbl db_old) db_old"
  have nc: "\<not> claiming (ui ?w)" by (simp add: mk_world_def)
  have av: "availableCoupon (coupons (ui ?w)) = Some (mk_coupon ''c-2'' ''FREESHIP'' False 1690000000000)"
    by (simp add: mk_world_def db_old_def mk_coupon_def availableCoupon_def)
  have ne: "claims_tbl (store ?w) \<noteq> []" by (simp add: mk_world_def db_old_def)
  have rl: "rate_limited (select_recent_claim (recent_fault ?e) (store ?w)) (now_claim ?e) = None"
    using rate_limited_store[OF ne, of 1700004000100]
    by (simp add: mk_env_def mk_world_def db_old_def mk_claim_def cooldown_def)
  have "store (claimCoupon ?e ?w) =
      store (claim_update ?e (mk_coupon ''c-2'' ''FREESHIP'' False 1690000000000)
        (emit Select_recent_claim (?w\<lparr>ui := (ui ?w)\<lparr>claiming := True\<rparr>\<rparr>)))"
    by (simp only: claimCoupon_permitted[OF nc av rl])
  also have "\<dots> = \<lparr>coupons_tbl = [mk_coupon ''c-1'' ''SAVE10'' True 1690000000000, mk_coupon ''c-2'' ''FREESHIP'' True 1690000000000,
                     mk_coupon ''c-3'' ''SPRING25'' False 1690000000000],
      claims_tbl = [mk_claim ''claim-0'' ''c-1'' ''browser-B'' 1700000000000,
                    mk_claim ''claim-C'' ''c-2'' ''browser-C'' 1700004000100]\<rparr>"
    by (simp add: claim_update_store emit_simps mk_env_def mk_world_def db_old_def mk_coupon_def
          mk_claim_def insert_claim_def update_coupon_def succeeded_def rls_update_def
          update_using_def update_with_check_def ensure_browser_id_def)
  finally show ?thesis by (simp only: db_after_other_claim_def)
qed

lemma store_world_stale: "store world_stale = db_after_other_claim"
  by (simp add: world_stale_def)

text \<open>
  Claim C1, at an input where the code departs from it. The page of \<open>world_stale\<close> was
  loaded more than an hour after the claim of instant 1700000000000, so the button is
  enabled, and the component still holds the expired instant 1700003600000. The attempt
  at instant 1700004000500 finds a claim made 400 ms earlier by another browser and is
  refused: no update, no insert, the tables unchanged. But \<^verbatim>\<open>updateTimeLeft\<close>, called
  right after \<^verbatim>\<open>setNextClaimTime\<close>, still reads the expired instant of its closure and
  resets \<^verbatim>\<open>nextClaimTime\<close> to null: no countdown to instant 1700007600100 is left, and
  the button stays enabled.
\<close>

theorem refusal_clears_countdown:
  "nextClaimTime (ui world_stale) = Some 1700003600000
   \<and> \<not> button_disabled (ui world_stale)
   \<and> rate_limited (select_recent_claim None (store world_stale)) 1700004000500 = Some 1700004000100
   \<and> issued (mk_env 1700004000500) world_stale =
       [Select_recent_claim, Toast_error ''Please wait 1 hour between claims'']
   \<and> store (claimCoupon (mk_env 1700004000500) world_stale) = store world_stale
   \<and> nextClaimTime (ui (claimCoupon (mk_env 1700004000500) world_stale)) = None
   \<and> timeLeft (ui (claimCoupon (mk_env 1700004000500) world_stale)) = None
   \<and> \<not> button_disabled (ui (claimCoupon (mk_env 1700004000500) world_stale))"
proof -
  have nc: "\<not> claiming (ui world_stale)" by (simp add: ui_world_stale)
  have av: "availableCoupon (coupons (ui world_stale)) = Some (mk_coupon ''c-2'' ''FREESHIP'' False 1690000000000)"
    by (simp add: ui_world_stale db_old_def mk_coupon_def availableCoupon_def)
  have mx: "Max (claimed_at ` set (claims_tbl (store world_stale))) = 1700004000100"
    by (simp add: store_world_stale db_after_other_claim_eq mk_claim_def)
  have d: "data (select_recent_claim (recent_fault (mk_env 1700004000500)) (store world_stale)) = Some (1700004000100 # [])"
    by (simp add: mk_env_def select_recent_claim_data mx)
       (simp add: store_world_stale db_after_other_claim_eq)
  have lt: "now_claim (mk_env 1700004000500) - 1700004000100 < cooldown"
    by (simp add: mk_env_def cooldown_def)
  note r = refused_within_the_hour[OF nc av d lt]
  have rl: "rate_limited (select_recent_claim None (store world_stale)) 1700004000500 = Some 1700004000100"
    using d lt by (simp add: rate_limited_Some_iff mk_env_def)
  have u: "ui (claimCoupon (mk_env 1700004000500) world_stale) =
      \<lparr>coupons = coupons_tbl db_old, loading = False, claiming = False,
       nextClaimTime = None, timeLeft = None\<rparr>"
    unfolding r(4) by (simp add: ui_world_stale updateTimeLeft_def mk_env_def)
  show ?thesis
    unfolding r(1,2) u by (simp add: rl ui_world_stale button_disabled_def)
qed


lemma select_recent_claim_browser_ids:
  "select_recent_claim f (d\<lparr>claims_tbl := map (\<lambda>r. r\<lparr>browser_id := g r\<rparr>) (claims_tbl d)\<rparr>) =
   select_recent_claim f d"
proof (cases f)
  case None
  have "claimed_at ` (\<lambda>r. r\<lparr>browser_id := g r\<rparr>) ` set (claims_tbl d) = claimed_at ` set (claims_tbl d)"
    by (simp add: image_image)
  then have "map claimed_at (take 1 (rev (sort_key claimed_at (map (\<lambda>r. r\<lparr>browser_id := g r\<rparr>) (claims_tbl d))))) =
      map claimed_at (take 1 (rev (sort_key claimed_at (claims_tbl d))))"
    unfolding recent_rows by simp
  with None show ?thesis
    by (simp add: select_recent_claim_def)
next
  case (Some m)
  then show ?thesis by (simp add: select_recent_claim_def)
qed

text \<open>
  Claim C7. The query behind the rate limit returns the greatest \<^verbatim>\<open>claimed_at\<close> of the
  whole claims table and nothing else: replacing the browser identifiers of the rows in
  any way does not change its answer. On load the countdown is set to that instant plus
  one hour, and a claim attempt is refused exactly when that instant is less than one
  hour old, whoever made the claim and whatever identifier the attempting browser
  holds.
\<close>

theorem cooldown_is_global:
  assumes "claims_tbl (store w) \<noteq> []"
  shows "data (select_recent_claim None (store w)) = Some [Max (claimed_at ` set (claims_tbl (store w)))]
       \<and> select_recent_claim f
           ((store w)\<lparr>claims_tbl := map (\<lambda>r. r\<lparr>browser_id := g r\<rparr>) (claims_tbl (store w))\<rparr>) =
         select_recent_claim f (store w)
       \<and> nextClaimTime (ui (checkLastClaim None w)) =
           Some (Max (claimed_at ` set (claims_tbl (store w))) + cooldown)
       \<and> (\<not> claiming (ui w) \<and> availableCoupon (coupons (ui w)) = Some c \<and> recent_fault e = None \<longrightarrow>
            (issued e w = [Select_recent_claim, Toast_error ''Please wait 1 hour between claims'']
             \<longleftrightarrow> now_claim e - Max (claimed_at ` set (claims_tbl (store w))) < cooldown))"
proof -
  let ?T = "Max (claimed_at ` set (claims_tbl (store w)))"
  have d: "data (select_recent_claim None (store w)) = Some [?T]"
    using assms by (simp add: select_recent_claim_data)
  have n: "nextClaimTime (ui (checkLastClaim None w)) = Some (?T + cooldown)"
    by (simp add: checkLastClaim_def d emit_simps)
  have r: "issued e w = [Select_recent_claim, Toast_error ''Please wait 1 hour between claims'']
             \<longleftrightarrow> now_claim e - ?T < cooldown"
    if nc: "\<not> claiming (ui w)" and av: "availableCoupon (coupons (ui w)) = Some c"
      and nf: "recent_fault e = None"
  proof
    assume "now_claim e - ?T < cooldown"
    with d nf show "issued e w = [Select_recent_claim, Toast_error ''Please wait 1 hour between claims'']"
      by (intro refused_within_the_hour(1)[OF nc av]) simp_all
  next
    assume i: "issued e w = [Select_recent_claim, Toast_error ''Please wait 1 hour between claims'']"
    show "now_claim e - ?T < cooldown"
    proof (rule ccontr)
      assume "\<not> now_claim e - ?T < cooldown"
      then have "cooldown \<le> now_claim e - ?T" by simp
      with d nf have "\<exists>evs. issued e w = Select_recent_claim # Update_coupon (id_coupon c) # evs"
        by (intro permitted_after_the_hour[OF nc av]) simp_all
      with i show False by simp
    qed
  qed
  from d n r show ?thesis
    by (simp add: select_recent_claim_browser_ids)
qed

theorem cooldown_is_global_witness:
  "nextClaimTime (ui (checkLastClaim None world_recent_claim)) = Some 3600000
   \<and> localStorage world_recent_claim ''browser_id'' = None
   \<and> map browser_id (claims_tbl (store world_recent_claim)) = [''browser-B'']
   \<and> issued (mk_env (59 * 60000)) world_recent_claim =
       [Select_recent_claim, Toast_error ''Please wait 1 hour between claims'']"
proof -
  have ne: "claims_tbl (store world_recent_claim) \<noteq> []"
    by (simp add: world_recent_claim_def mk_world_def)
  have mx: "Max (claimed_at ` set (claims_tbl (store world_recent_claim))) = 0"
    by (simp add: world_recent_claim_def mk_world_def mk_claim_def)
  note t = cooldown_is_global[OF ne, of _ _ "mk_coupon ''c-2'' ''FREESHIP'' False 0" "mk_env (59 * 60000)"]
  have nf: "recent_fault (mk_env (59 * 60000)) = None" and lt: "now_claim (mk_env (59 * 60000)) - 0 < cooldown"
    by (simp_all add: mk_env_def cooldown_def)
  note t' = t[unfolded mx, THEN conjunct2, THEN conjunct2]
  from t' have n: "nextClaimTime (ui (checkLastClaim None world_recent_claim)) = Some (0 + cooldown)"
    by (rule conjunct1)
  from t'[THEN conjunct2, THEN mp] not_claiming_recent_claim available_recent_claim nf lt
  have i: "issued (mk_env (59 * 60000)) world_recent_claim =
         [Select_recent_claim, Toast_error ''Please wait 1 hour between claims'']"
    by simp
  have o: "localStorage world_recent_claim ''browser_id'' = None
      \<and> map browser_id (claims_tbl (store world_recent_claim)) = [''browser-B'']"
    by (simp add: world_recent_claim_def mk_world_def mk_claim_def)
  from n i o show ?thesis by (simp add: cooldown_def)
qed


section \<open>The browser identifier\<close>

lemma ensure_browser_id_absent:
  "ls ''browser_id'' = None \<or> ls ''browser_id'' = Some [] \<Longrightarrow>
   ensure_browser_id fresh ls = (fresh, ls(''browser_id'' \<mapsto> fresh))"
  by (auto simp add: ensure_browser_id_def)

lemma localStorage_not_permitted:
  assumes "claiming (ui w) \<or> availableCoupon (coupons (ui w)) = None \<or>
     rate_limited (select_recent_claim (recent_fault e) (store w)) (now_claim e) \<noteq> None"
  shows "localStorage (claimCoupon e w) = localStorage w"
    and "claims_tbl (store (claimCoupon e w)) = claims_tbl (store w)"
    and "\<forall>ev \<in> set (issued e w). \<not> is_write ev"
proof -
  consider (fl) "claiming (ui w)"
    | (no) "\<not> claiming (ui w)" "availableCoupon (coupons (ui w)) = None"
    | (rf) c t where "\<not> claiming (ui w)" "availableCoupon (coupons (ui w)) = Some c"
        "rate_limited (select_recent_claim (recent_fault e) (store w)) (now_claim e) = Some t"
    using assms by (cases "availableCoupon (coupons (ui w))") auto
  then have "localStorage (claimCoupon e w) = localStorage w \<and>
      claims_tbl (store (claimCoupon e w)) = claims_tbl (store w) \<and>
      (\<forall>ev \<in> set (issued e w). \<not> is_write ev)"
  proof cases
    case fl
    then show ?thesis by (simp add: claimCoupon_in_flight issued_def)
  next
    case no
    then show ?thesis by (simp add: claimCoupon_none issued_def emit_simps is_write_def)
  next
    case rf
    show ?thesis
      unfolding issued_def issued_refused[OF rf] by (simp add: is_write_def)
  qed
  then show "localStorage (claimCoupon e w) = localStorage w"
    and "claims_tbl (store (claimCoupon e w)) = claims_tbl (store w)"
    and "\<forall>ev \<in> set (issued e w). \<not> is_write ev"
    by simp_all
qed

lemma localStorage_permitted:
  assumes "\<not> claiming (ui w)" and "availableCoupon (coupons (ui w)) = Some c"
    and "rate_limited (select_recent_claim (recent_fault e) (store w)) (now_claim e) = None"
  shows "localStorage (claimCoupon e w) = snd (ensure_browser_id (random_uuid e) (localStorage w))"
  by (simp add: claimCoupon_permitted[OF assms] claim_update_localStorage emit_simps)

lemma stored_id_kept:
  assumes "localStorage w ''browser_id'' = Some b" and "b \<noteq> []"
  shows "localStorage (claimCoupon e w) = localStorage w"
proof (cases "claiming (ui w) \<or> availableCoupon (coupons (ui w)) = None \<or>
     rate_limited (select_recent_claim (recent_fault e) (store w)) (now_claim e) \<noteq> None")
  case True
  then show ?thesis by (rule localStorage_not_permitted(1))
next
  case False
  then obtain c where "\<not> claiming (ui w)" "availableCoupon (coupons (ui w)) = Some c"
    "rate_limited (select_recent_claim (recent_fault e) (store w)) (now_claim e) = None"
    by auto
  then have "localStorage (claimCoupon e w) = snd (ensure_browser_id (random_uuid e) (localStorage w))"
    by (rule localStorage_permitted)
  then show ?thesis
    using assms by (simp add: ensure_browser_id_def)
qed

lemma inserted_id_is_stored:
  assumes "Insert_claim i b a \<in> set (issued e w)"
  shows "localStorage (claimCoupon e w) ''browser_id'' = Some b"
proof (cases "claiming (ui w) \<or> availableCoupon (coupons (ui w)) = None \<or>
     rate_limited (select_recent_claim (recent_fault e) (store w)) (now_claim e) \<noteq> None")
  case True
  then have "\<forall>ev \<in> set (issued e w). \<not> is_write ev"
    by (rule localStorage_not_permitted(3))
  with assms have "\<not> is_write (Insert_claim i b a)" by (rule bspec[rotated])
  then show ?thesis by (simp add: is_write_def)
next
  case False
  then obtain c where p: "\<not> claiming (ui w)" "availableCoupon (coupons (ui w)) = Some c"
    "rate_limited (select_recent_claim (recent_fault e) (store w)) (now_claim e) = None"
    by auto
  let ?b = "fst (ensure_browser_id (random_uuid e) (localStorage w))"
  from issued_permitted[OF p] obtain rest where
    i: "issued e w = Select_recent_claim # Update_coupon (id_coupon c) # rest"
    and f: "update_fault e \<noteq> None \<longrightarrow> rest = [Toast_error ''Failed to claim coupon'', Console_error]"
    and g: "update_fault e = None \<longrightarrow>
        (\<exists>rest'. rest = Insert_claim (id_coupon c) ?b ''client-ip'' # rest'
                    \<and> (\<forall>ev \<in> set rest'. \<not> is_write ev \<and>
                          ev \<noteq> Toast_error ''Please wait 1 hour between claims''))"
    by (elim exE conjE)
  from assms i have m: "Insert_claim i b a \<in> set rest" by simp
  have "b = ?b"
  proof (cases "update_fault e")
    case None
    with g obtain rest' where r: "rest = Insert_claim (id_coupon c) ?b ''client-ip'' # rest'"
      and nw: "\<forall>ev \<in> set rest'. \<not> is_write ev"
      by auto
    have "Insert_claim i b a \<notin> set rest'"
    proof
      assume "Insert_claim i b a \<in> set rest'"
      with nw have "\<not> is_write (Insert_claim i b a)" by (rule bspec)
      then show False by (simp add: is_write_def)
    qed
    with m r show ?thesis by simp
  next
    case (Some msg)
    with f m show ?thesis by simp
  qed
  then show ?thesis
    by (simp add: localStorage_permitted[OF p] ensure_browser_id_stored)
qed

lemma inserted_row_has_stored_id:
  "claims_tbl (store (claimCoupon e w)) = claims_tbl (store w) \<or>
   (\<exists>row. claims_tbl (store (claimCoupon e w)) = claims_tbl (store w) @ [row] \<and>
          localStorage (claimCoupon e w) ''browser_id'' = Some (browser_id row))"
proof (cases "claiming (ui w) \<or> availableCoupon (coupons (ui w)) = None \<or>
     rate_limited (select_recent_claim (recent_fault e) (store w)) (now_claim e) \<noteq> None")
  case True
  then have "claims_tbl (store (claimCoupon e w)) = claims_tbl (store w)"
    by (rule localStorage_not_permitted(2))
  then show ?thesis by (rule disjI1)
next
  case False
  then obtain c where p: "\<not> claiming (ui w)" "availableCoupon (coupons (ui w)) = Some c"
    "rate_limited (select_recent_claim (recent_fault e) (store w)) (now_claim e) = None"
    by auto
  have s: "localStorage (claimCoupon e w) ''browser_id'' = Some (browser_id (new_claim e c (localStorage w)))"
    by (simp add: localStorage_permitted[OF p] ensure_browser_id_stored new_claim_def)
  from claim_resume_claims_tbl[of e "ui w" c "w\<lparr>ui := (ui w)\<lparr>claiming := True\<rparr>\<rparr>"]
  have "claims_tbl (store (claimCoupon e w)) = claims_tbl (store w) \<or>
      claims_tbl (store (claimCoupon e w)) = claims_tbl (store w) @ [new_claim e c (localStorage w)]"
    by (simp add: claimCoupon_some[OF p(1,2)])
  with s show ?thesis by blast
qed


text \<open>
  Claim C8, as stated, at two first attempts of a browser without identifier: one finds
  every listed coupon claimed, the other is refused by the rate limit (the last claim is
  59 minutes old). Both end before line 111: no identifier is generated or stored.
\<close>

theorem first_attempt_without_identifier:
  "localStorage world_all_claimed ''browser_id'' = None
   \<and> \<not> claiming (ui world_all_claimed)
   \<and> issued (mk_env 5000) world_all_claimed = [Toast_error ''No coupons available'']
   \<and> localStorage (claimCoupon (mk_env 5000) world_all_claimed) ''browser_id'' = None
   \<and> localStorage world_recent_claim ''browser_id'' = None
   \<and> \<not> claiming (ui world_recent_claim)
   \<and> issued (mk_env (59 * 60000)) world_recent_claim =
       [Select_recent_claim, Toast_error ''Please wait 1 hour between claims'']
   \<and> localStorage (claimCoupon (mk_env (59 * 60000)) world_recent_claim) ''browser_id'' = None"
proof -
  have a1: "localStorage world_all_claimed ''browser_id'' = None" and a2: "\<not> claiming (ui world_all_claimed)"
    and a3: "availableCoupon (coupons (ui world_all_claimed)) = None"
    by (simp_all add: world_all_claimed_def mk_world_def mk_coupon_def availableCoupon_def)
  have a4: "claimCoupon (mk_env 5000) world_all_claimed = emit (Toast_error ''No coupons available'') world_all_claimed"
    using a2 a3 by (rule claimCoupon_none)
  have a5: "issued (mk_env 5000) world_all_claimed = [Toast_error ''No coupons available'']"
    unfolding issued_def a4 by (simp add: emit_simps)
  have a6: "localStorage (claimCoupon (mk_env 5000) world_all_claimed) ''browser_id'' = None"
    unfolding a4 by (simp add: emit_simps a1)
  have b1: "localStorage world_recent_claim ''browser_id'' = None"
    by (simp add: world_recent_claim_def mk_world_def)
  have d: "data (select_recent_claim (recent_fault (mk_env (59 * 60000))) (store world_recent_claim)) = Some (0 # [])"
    by (simp add: mk_env_def select_recent_claim_data)
       (simp add: world_recent_claim_def mk_world_def mk_claim_def)
  have lt: "now_claim (mk_env (59 * 60000)) - 0 < cooldown"
    by (simp add: mk_env_def cooldown_def)
  note r = refused_within_the_hour[OF not_claiming_recent_claim available_recent_claim d lt]
  have b3: "localStorage (claimCoupon (mk_env (59 * 60000)) world_recent_claim) ''browser_id'' = None"
    unfolding r(3) by (rule b1)
  from a1 a2 a5 a6 b1 not_claiming_recent_claim r(1) b3 show ?thesis
    by (intro conjI)
qed

text \<open>
  Claim C8, amended. An attempt that passes the in-flight guard, finds a coupon and is
  not refused by the rate limit generates a random identifier and stores it when none
  (or an empty one) is stored; an attempt stopped by one of these checks leaves
  \<^verbatim>\<open>localStorage\<close> as it is. A stored non-empty identifier is never replaced by any
  attempt, so the identifier generated by a passing attempt is still the stored one
  after the next attempt. Every insert request, and every row added to the claims
  table, carries the identifier stored when the handler ends.
\<close>

theorem browser_id_generated_once:
  "(localStorage w ''browser_id'' = Some b \<and> b \<noteq> [] \<longrightarrow>
      localStorage (claimCoupon e w) = localStorage w)
   \<and> (\<not> claiming (ui w) \<and> availableCoupon (coupons (ui w)) = Some c \<and>
      rate_limited (select_recent_claim (recent_fault e) (store w)) (now_claim e) = None \<and>
      (localStorage w ''browser_id'' = None \<or> localStorage w ''browser_id'' = Some []) \<longrightarrow>
      localStorage (claimCoupon e w) = (localStorage w)(''browser_id'' \<mapsto> random_uuid e) \<and>
      (random_uuid e \<noteq> [] \<longrightarrow>
         localStorage (claimCoupon e' (claimCoupon e w)) ''browser_id'' = Some (random_uuid e)))
   \<and> (claiming (ui w) \<or> availableCoupon (coupons (ui w)) = None \<or>
      rate_limited (select_recent_claim (recent_fault e) (store w)) (now_claim e) \<noteq> None \<longrightarrow>
      localStorage (claimCoupon e w) = localStorage w)
   \<and> (\<forall>i b' a. Insert_claim i b' a \<in> set (issued e w) \<longrightarrow>
      localStorage (claimCoupon e w) ''browser_id'' = Some b')
   \<and> (claims_tbl (store (claimCoupon e w)) = claims_tbl (store w) \<or>
      (\<exists>row. claims_tbl (store (claimCoupon e w)) = claims_tbl (store w) @ [row] \<and>
             localStorage (claimCoupon e w) ''browser_id'' = Some (browser_id row)))"
proof (intro conjI impI allI)
  assume "localStorage w ''browser_id'' = Some b \<and> b \<noteq> []"
  then show "localStorage (claimCoupon e w) = localStorage w"
    using stored_id_kept by blast
next
  assume h: "\<not> claiming (ui w) \<and> availableCoupon (coupons (ui w)) = Some c \<and>
      rate_limited (select_recent_claim (recent_fault e) (store w)) (now_claim e) = None \<and>
      (localStorage w ''browser_id'' = None \<or> localStorage w ''browser_id'' = Some [])"
  then have "localStorage (claimCoupon e w) = snd (ensure_browser_id (random_uuid e) (localStorage w))"
    by (intro localStorage_permitted) simp_all
  with h show g: "localStorage (claimCoupon e w) = (localStorage w)(''browser_id'' \<mapsto> random_uuid e)"
    by (simp add: ensure_browser_id_absent)
  assume "random_uuid e \<noteq> []"
  moreover from g have "localStorage (claimCoupon e w) ''browser_id'' = Some (random_uuid e)"
    by simp
  ultimately have "localStorage (claimCoupon e' (claimCoupon e w)) = localStorage (claimCoupon e w)"
    by (intro stored_id_kept)
  with g show "localStorage (claimCoupon e' (claimCoupon e w)) ''browser_id'' = Some (random_uuid e)"
    by simp
next
  assume "claiming (ui w) \<or> availableCoupon (coupons (ui w)) = None \<or>
      rate_limited (select_recent_claim (recent_fault e) (store w)) (now_claim e) \<noteq> None"
  then show "localStorage (claimCoupon e w) = localStorage w"
    by (rule localStorage_not_permitted(1))
next
  fix i b' a
  assume "Insert_claim i b' a \<in> set (issued e w)"
  then show "localStorage (claimCoupon e w) ''browser_id'' = Some b'"
    by (rule inserted_id_is_stored)
next
  show "claims_tbl (store (claimCoupon e w)) = claims_tbl (store w) \<or>
      (\<exists>row. claims_tbl (store (claimCoupon e w)) = claims_tbl (store w) @ [row] \<and>
             localStorage (claimCoupon e w) ''browser_id'' = Some (browser_id row))"
    by (rule inserted_row_has_stored_id)
qed

theorem browser_id_generated_once_witness:
  "localStorage (claimCoupon (mk_env 5000) world_one_free) ''browser_id'' = Some ''browser-A''
   \<and> localStorage (claimCoupon ((mk_env 9000)\<lparr>random_uuid := ''browser-Z''\<rparr>)
                      (claimCoupon (mk_env 5000) world_one_free)) ''browser_id'' = Some ''browser-A''"
proof -
  have h: "\<not> claiming (ui world_one_free) \<and>
      availableCoupon (coupons (ui world_one_free)) = Some (mk_coupon ''c-2'' ''FREESHIP'' False 0) \<and>
      rate_limited (select_recent_claim (recent_fault (mk_env 5000)) (store world_one_free))
        (now_claim (mk_env 5000)) = None \<and>
      (localStorage world_one_free ''browser_id'' = None \<or> localStorage world_one_free ''browser_id'' = Some [])"
    using not_claiming_one_free available_one_free recent_one_free[of 5000]
    by (simp add: world_one_free_def mk_world_def)
  have u: "random_uuid (mk_env 5000) = ''browser-A''" "random_uuid (mk_env 5000) \<noteq> []"
    by (simp_all add: mk_env_def)
  note t = browser_id_generated_once[of world_one_free _ "mk_env 5000"
      "mk_coupon ''c-2'' ''FREESHIP'' False 0" "(mk_env 9000)\<lparr>random_uuid := ''browser-Z''\<rparr>",
      THEN conjunct2, THEN conjunct1, THEN mp, OF h]
  from t[THEN conjunct1] have "localStorage (claimCoupon (mk_env 5000) world_one_free) ''browser_id'' = Some ''browser-A''"
    by (simp add: u(1))
  moreover from t[THEN conjunct2, THEN mp, OF u(2)]
  have "localStorage (claimCoupon ((mk_env 9000)\<lparr>random_uuid := ''browser-Z''\<rparr>)
                      (claimCoupon (mk_env 5000) world_one_free)) ''browser_id'' = Some ''browser-A''"
    by (simp add: u(1))
  ultimately show ?thesis by (rule conjI)
qed


section \<open>Seed data\<close>

lemma insert_on_conflict_present:
  "fst ` snd ` set vs \<subseteq> code ` set tbl \<Longrightarrow> insert_on_conflict_do_nothing now vs tbl = tbl"
proof (induction vs)
  case Nil
  then show ?case by simp
next
  case (Cons v vs)
  obtain i c d where v: "v = (i, c, d)" by (cases v)
  from Cons.prems have "c \<in> code ` set tbl" and "fst ` snd ` set vs \<subseteq> code ` set tbl"
    by (simp_all add: v)
  with Cons.IH show ?case by (simp add: v)
qed

lemma insert_on_conflict_appends:
  "\<exists>new. insert_on_conflict_do_nothing now vs tbl = tbl @ new \<and> length new \<le> length vs \<and>
     (\<forall>r \<in> set new. (code r, description r) \<in> snd ` set vs \<and> \<not> is_claimed r \<and> created_at r = now)"
proof (induction vs arbitrary: tbl)
  case Nil
  then show ?case by simp
next
  case (Cons v vs)
  obtain i c d where v: "v = (i, c, d)" by (cases v)
  let ?row = "\<lparr>id_coupon = i, code = c, description = d, is_claimed = False, created_at = now\<rparr>"
  show ?case
  proof (cases "c \<in> code ` set tbl \<or> i \<in> id_coupon ` set tbl")
    case True
    from Cons.IH[of tbl] obtain new where
      "insert_on_conflict_do_nothing now vs tbl = tbl @ new" "length new \<le> length vs"
      "\<forall>r \<in> set new. (code r, description r) \<in> snd ` set vs \<and> \<not> is_claimed r \<and> created_at r = now"
      by blast
    with True show ?thesis
      by (intro exI[of _ new]) (simp add: v)
  next
    case False
    from Cons.IH[of "tbl @ [?row]"] obtain new where
      n: "insert_on_conflict_do_nothing now vs (tbl @ [?row]) = (tbl @ [?row]) @ new" "length new \<le> length vs"
      "\<forall>r \<in> set new. (code r, description r) \<in> snd ` set vs \<and> \<not> is_claimed r \<and> created_at r = now"
      by blast
    have "(c, d) \<in> snd ` set (v # vs)" by (simp add: v image_iff)
    with False n show ?thesis
      by (intro exI[of _ "?row # new"]) (simp add: v)
  qed
qed

lemma seed_rows: "[0..<length seed_values] = [0, 1, 2, 3, 4]"
  by (simp add: seed_values_def upt_rec)

lemma insert_on_conflict_fresh:
  assumes "distinct (map fst vs)" and "distinct (map (\<lambda>v. fst (snd v)) vs)"
    and "fst ` set vs \<inter> id_coupon ` set tbl = {}"
    and "(\<lambda>v. fst (snd v)) ` set vs \<inter> code ` set tbl = {}"
  shows "insert_on_conflict_do_nothing now vs tbl =
     tbl @ map (\<lambda>(i, c, d). \<lparr>id_coupon = i, code = c, description = d, is_claimed = False,
                            created_at = now\<rparr>) vs"
  using assms
proof (induction vs arbitrary: tbl)
  case Nil
  then show ?case by simp
next
  case (Cons v vs)
  obtain i c d where v: "v = (i, c, d)" by (cases v)
  let ?row = "\<lparr>id_coupon = i, code = c, description = d, is_claimed = False, created_at = now\<rparr>"
  from Cons.prems have fresh: "c \<notin> code ` set tbl" "i \<notin> id_coupon ` set tbl"
    by (auto simp: v)
  from Cons.prems have d: "distinct (map fst vs)" "distinct (map (\<lambda>v. fst (snd v)) vs)"
    by simp_all
  from Cons.prems have "i \<notin> fst ` set vs" "c \<notin> (\<lambda>v. fst (snd v)) ` set vs"
    by (simp_all add: v)
  with Cons.prems have
    "fst ` set vs \<inter> id_coupon ` set (tbl @ [?row]) = {}"
    "(\<lambda>v. fst (snd v)) ` set vs \<inter> code ` set (tbl @ [?row]) = {}"
    by (auto simp: v)
  with d have "insert_on_conflict_do_nothing now vs (tbl @ [?row]) =
     (tbl @ [?row]) @ map (\<lambda>(i, c, d). \<lparr>id_coupon = i, code = c, description = d, is_claimed = False,
                            created_at = now\<rparr>) vs"
    by (rule Cons.IH)
  with fresh show ?case by (simp add: v)
qed

lemma seed_fresh:
  assumes "distinct (map gen [0..<length seed_values])"
  shows "insert_on_conflict_do_nothing now (zip (map gen [0..<length seed_values]) seed_values) [] =
     map (\<lambda>(i, c, d). \<lparr>id_coupon = i, code = c, description = d, is_claimed = False, created_at = now\<rparr>)
       (zip (map gen [0..<length seed_values]) seed_values)"
proof -
  let ?vs = "zip (map gen [0..<length seed_values]) seed_values"
  have f: "map fst ?vs = map gen [0..<length seed_values]"
    by (simp add: map_fst_zip)
  have m: "map snd ?vs = seed_values"
    by (simp add: map_snd_zip)
  have "map (\<lambda>v. fst (snd v)) ?vs = map fst (map snd ?vs)"
    by (simp only: map_map comp_def)
  then have "map (\<lambda>v. fst (snd v)) ?vs = map fst seed_values"
    by (simp only: m)
  moreover have "distinct (map fst seed_values)"
    by (simp add: seed_values_def)
  ultimately have g: "distinct (map (\<lambda>v. fst (snd v)) ?vs)" by simp
  from assms f have "distinct (map fst ?vs)" by simp
  from insert_on_conflict_fresh[OF this g, of "[]" now] show ?thesis by simp
qed


lemma seed_present:
  assumes "fst ` set seed_values \<subseteq> code ` set (coupons_tbl d)"
  shows "seed gen now d = d"
proof -
  have "snd ` set (zip (map gen [0..<length seed_values]) seed_values) \<subseteq> set seed_values"
    by (auto dest: set_zip_rightD)
  then have "fst ` snd ` set (zip (map gen [0..<length seed_values]) seed_values) \<subseteq> fst ` set seed_values"
    by (rule image_mono)
  with assms have "fst ` snd ` set (zip (map gen [0..<length seed_values]) seed_values) \<subseteq>
      code ` set (coupons_tbl d)"
    by (rule subset_trans[rotated])
  then show ?thesis
    by (simp add: seed_def insert_on_conflict_present)
qed

lemma seed_empty:
  assumes "coupons_tbl d = []" and "distinct (map gen [0..<length seed_values])"
  shows "map (\<lambda>r. (code r, description r)) (coupons_tbl (seed gen now d)) = seed_values"
    and "\<forall>r \<in> set (coupons_tbl (seed gen now d)). \<not> is_claimed r"
proof -
  let ?vs = "zip (map gen [0..<length seed_values]) seed_values"
  let ?row = "\<lambda>(i, c, d). \<lparr>id_coupon = i, code = c, description = d, is_claimed = False, created_at = now\<rparr>"
  have c: "coupons_tbl (seed gen now d) = map ?row ?vs"
    using seed_fresh[OF assms(2), of now] by (simp add: seed_def assms(1))
  have e: "(code (?row v), description (?row v)) = snd v" for v
    by (simp add: case_prod_beta)
  have "map (\<lambda>r. (code r, description r)) (map ?row ?vs) = map snd ?vs"
    by (simp only: map_map comp_def e)
  also have "\<dots> = seed_values"
    by (simp add: map_snd_zip)
  finally show "map (\<lambda>r. (code r, description r)) (coupons_tbl (seed gen now d)) = seed_values"
    by (simp only: c)
  show "\<forall>r \<in> set (coupons_tbl (seed gen now d)). \<not> is_claimed r"
    unfolding c by (simp add: case_prod_beta)
qed

text \<open>
  Claim C9. On an empty coupons table the seed statement inserts the five fixed codes
  with their descriptions, unclaimed, and nothing else. On a table that already holds
  the five codes it inserts nothing and leaves the store as it is; in particular a second
  run after a first one on an empty table changes nothing. On any table it only appends
  rows taken from the five (at most five of them) and does not touch the claims.
\<close>

theorem seed_idempotent:
  "(fst ` set seed_values \<subseteq> code ` set (coupons_tbl d) \<longrightarrow> seed gen now d = d)
   \<and> (coupons_tbl d = [] \<and> distinct (map gen [0..<length seed_values]) \<longrightarrow>
        map (\<lambda>r. (code r, description r)) (coupons_tbl (seed gen now d)) = seed_values
        \<and> length (coupons_tbl (seed gen now d)) = 5
        \<and> (\<forall>r \<in> set (coupons_tbl (seed gen now d)). \<not> is_claimed r)
        \<and> seed gen' now' (seed gen now d) = seed gen now d)
   \<and> (\<exists>new. coupons_tbl (seed gen now d) = coupons_tbl d @ new \<and> length new \<le> 5 \<and>
        (\<forall>r \<in> set new. (code r, description r) \<in> set seed_values \<and> \<not> is_claimed r))
   \<and> claims_tbl (seed gen now d) = claims_tbl d"
proof (intro conjI impI)
  assume "fst ` set seed_values \<subseteq> code ` set (coupons_tbl d)"
  then show "seed gen now d = d" by (rule seed_present)
next
  assume h: "coupons_tbl d = [] \<and> distinct (map gen [0..<length seed_values])"
  then have h1: "coupons_tbl d = []" and h2: "distinct (map gen [0..<length seed_values])"
    by simp_all
  note m = seed_empty(1)[OF h1 h2, of now] and u = seed_empty(2)[OF h1 h2, of now]
  show "map (\<lambda>r. (code r, description r)) (coupons_tbl (seed gen now d)) = seed_values"
    by (rule m)
  from m have "length (map (\<lambda>r. (code r, description r)) (coupons_tbl (seed gen now d))) = length seed_values"
    by (rule arg_cong)
  then show "length (coupons_tbl (seed gen now d)) = 5"
    by (simp add: seed_values_def)
  show "\<forall>r \<in> set (coupons_tbl (seed gen now d)). \<not> is_claimed r"
    by (rule u)
  from m have "map fst (map (\<lambda>r. (code r, description r)) (coupons_tbl (seed gen now d))) = map fst seed_values"
    by (rule arg_cong)
  then have "map code (coupons_tbl (seed gen now d)) = map fst seed_values"
    by (simp add: comp_def)
  then have "set (map code (coupons_tbl (seed gen now d))) = set (map fst seed_values)"
    by (rule arg_cong)
  then have "fst ` set seed_values \<subseteq> code ` set (coupons_tbl (seed gen now d))"
    by simp
  then show "seed gen' now' (seed gen now d) = seed gen now d"
    by (rule seed_present)
next
  let ?vs = "zip (map gen [0..<length seed_values]) seed_values"
  from insert_on_conflict_appends[of now ?vs "coupons_tbl d"] obtain new where
    a: "insert_on_conflict_do_nothing now ?vs (coupons_tbl d) = coupons_tbl d @ new"
    and l: "length new \<le> length ?vs"
    and r: "\<forall>r \<in> set new. (code r, description r) \<in> snd ` set ?vs \<and> \<not> is_claimed r \<and> created_at r = now"
    by (elim exE conjE)
  have s: "snd ` set ?vs \<subseteq> set seed_values"
    by (auto dest: set_zip_rightD)
  have "coupons_tbl (seed gen now d) = coupons_tbl d @ new"
    by (simp add: seed_def a)
  moreover from l have "length new \<le> 5"
    by (simp add: seed_values_def)
  moreover from r s have "\<forall>r \<in> set new. (code r, description r) \<in> set seed_values \<and> \<not> is_claimed r"
    by blast
  ultimately show "\<exists>new. coupons_tbl (seed gen now d) = coupons_tbl d @ new \<and> length new \<le> 5 \<and>
        (\<forall>r \<in> set new. (code r, description r) \<in> set seed_values \<and> \<not> is_claimed r)"
    by blast
next
  show "claims_tbl (seed gen now d) = claims_tbl d"
    by (simp add: seed_def)
qed

theorem seed_idempotent_witness:
  "map code (coupons_tbl (seed gen0 0 empty_db)) =
     [''SAVE10'', ''FREESHIP'', ''SPRING25'', ''WELCOME15'', ''FLASH50'']
   \<and> seed gen0 86400000 (seed gen0 0 empty_db) = seed gen0 0 empty_db"
proof -
  have h: "coupons_tbl empty_db = [] \<and> distinct (map gen0 [0..<length seed_values])"
    unfolding seed_rows by (simp add: empty_db_def gen0_def eval_nat_numeral)
  note t = seed_idempotent[of empty_db gen0 0 gen0 86400000, THEN conjunct2, THEN conjunct1, THEN mp, OF h]
  from t[THEN conjunct1]
  have "map fst (map (\<lambda>r. (code r, description r)) (coupons_tbl (seed gen0 0 empty_db))) = map fst seed_values"
    by (rule arg_cong)
  then have "map code (coupons_tbl (seed gen0 0 empty_db)) =
     [''SAVE10'', ''FREESHIP'', ''SPRING25'', ''WELCOME15'', ''FLASH50'']"
    by (simp add: comp_def seed_values_def)
  moreover from t have "seed gen0 86400000 (seed gen0 0 empty_db) = seed gen0 0 empty_db"
    by (elim conjE)
  ultimately show ?thesis by (rule conjI)
qed


section \<open>The claimed flag\<close>

lemma flag_monotone_refl: "flag_monotone tbl tbl"
  by (simp add: flag_monotone_def)

lemma flag_monotone_trans:
  assumes "flag_monotone a b" and "flag_monotone b c"
  shows "flag_monotone a c"
  unfolding flag_monotone_def
proof (intro conjI allI impI)
  show "length a \<le> length c"
    using assms by (simp add: flag_monotone_def)
next
  fix i assume i: "i < length a"
  then have j: "i < length b" using assms(1) by (simp add: flag_monotone_def)
  show "id_coupon (c ! i) = id_coupon (a ! i)"
    using assms i j by (simp add: flag_monotone_def)
  assume "is_claimed (a ! i)"
  then have "is_claimed (b ! i)" using assms(1) i by (simp add: flag_monotone_def)
  then show "is_claimed (c ! i)" using assms(2) j by (simp add: flag_monotone_def)
qed

lemma flag_monotone_append: "flag_monotone tbl (tbl @ new)"
  by (simp add: flag_monotone_def nth_append)

lemma rls_update_claimed_unchanged:
  "i < length tbl \<Longrightarrow> is_claimed (tbl ! i) \<Longrightarrow> rls_update wh upd tbl ! i = tbl ! i"
  by (simp add: rls_update_def update_using_def)

lemma flag_monotone_rls:
  "flag_monotone tbl (rls_update wh (\<lambda>r. r\<lparr>is_claimed := True\<rparr>) tbl)"
  by (simp add: flag_monotone_def rls_update_def)

lemma claimCoupon_coupons_tbl:
  "coupons_tbl (store (claimCoupon e w)) = coupons_tbl (store w) \<or>
   (\<exists>c::Coupon. coupons_tbl (store (claimCoupon e w)) =
      rls_update (\<lambda>r. id_coupon r = id_coupon c) (\<lambda>r. r\<lparr>is_claimed := True\<rparr>) (coupons_tbl (store w)))"
proof (cases "claiming (ui w)")
  case True
  then show ?thesis by (simp add: claimCoupon_in_flight)
next
  case False
  show ?thesis
  proof (cases "availableCoupon (coupons (ui w))")
    case None
    with False show ?thesis by (simp add: claimCoupon_none emit_simps)
  next
    case (Some c)
    show ?thesis
    proof (cases "rate_limited (select_recent_claim (recent_fault e) (store w)) (now_claim e)")
      case None
      have "coupons_tbl (store (claimCoupon e w)) =
        (if update_fault e = None
         then rls_update (\<lambda>r. id_coupon r = id_coupon c) (\<lambda>r. r\<lparr>is_claimed := True\<rparr>) (coupons_tbl (store w))
         else coupons_tbl (store w))"
        by (simp add: claimCoupon_permitted[OF False Some None] claim_update_coupons_tbl emit_simps)
      then show ?thesis by (cases "update_fault e = None") auto
    next
      case (Some t)
      from issued_refused[OF False \<open>availableCoupon (coupons (ui w)) = Some c\<close> Some]
      show ?thesis by simp
    qed
  qed
qed

lemma seed_coupons_tbl: "\<exists>new. coupons_tbl (seed gen now d) = coupons_tbl d @ new"
proof -
  from insert_on_conflict_appends[of now "zip (map gen [0..<length seed_values]) seed_values" "coupons_tbl d"]
  obtain new where "insert_on_conflict_do_nothing now
      (zip (map gen [0..<length seed_values]) seed_values) (coupons_tbl d) = coupons_tbl d @ new"
    by (elim exE conjE)
  then show ?thesis by (simp add: seed_def)
qed

lemma exec_flag_monotone: "flag_monotone (coupons_tbl (store w)) (coupons_tbl (store (exec opn w)))"
proof (cases opn)
  case (Seed gen now)
  from seed_coupons_tbl[of gen now "store w"] obtain new where
    "coupons_tbl (seed gen now (store w)) = coupons_tbl (store w) @ new" ..
  with Seed show ?thesis by (simp add: flag_monotone_append)
next
  case (FetchCoupons f)
  then show ?thesis by (simp add: fetchCoupons_simps flag_monotone_refl)
next
  case (CheckLastClaim f)
  then show ?thesis by (simp add: checkLastClaim_simps flag_monotone_refl)
next
  case (Tick now)
  then show ?thesis by (simp add: tick_def flag_monotone_refl)
next
  case (ClaimCoupon e)
  from claimCoupon_coupons_tbl[of e w] show ?thesis
  proof
    assume "coupons_tbl (store (claimCoupon e w)) = coupons_tbl (store w)"
    with ClaimCoupon show ?thesis by (simp add: flag_monotone_refl)
  next
    assume "\<exists>c::Coupon. coupons_tbl (store (claimCoupon e w)) =
      rls_update (\<lambda>r. id_coupon r = id_coupon c) (\<lambda>r. r\<lparr>is_claimed := True\<rparr>) (coupons_tbl (store w))"
    then obtain c :: Coupon where "coupons_tbl (store (claimCoupon e w)) =
      rls_update (\<lambda>r. id_coupon r = id_coupon c) (\<lambda>r. r\<lparr>is_claimed := True\<rparr>) (coupons_tbl (store w))" ..
    with ClaimCoupon show ?thesis by (simp add: flag_monotone_rls)
  qed
qed

lemma run_store_flag_monotone: "flag_monotone (coupons_tbl d) (coupons_tbl (run_store steps d))"
proof (induction steps arbitrary: d)
  case Nil
  show ?case by (simp add: flag_monotone_refl)
next
  case (Cons st steps)
  obtain opn s ls where st: "st = (opn, s, ls)" by (cases st)
  let ?d' = "store (exec opn \<lparr>ui = s, localStorage = ls, store = d, log = []\<rparr>)"
  have "flag_monotone (coupons_tbl d) (coupons_tbl ?d')"
    using exec_flag_monotone[of "\<lparr>ui = s, localStorage = ls, store = d, log = []\<rparr>" opn] by simp
  moreover have "flag_monotone (coupons_tbl ?d') (coupons_tbl (run_store steps ?d'))"
    by (rule Cons.IH)
  ultimately show ?case
    unfolding st run_store.simps by (rule flag_monotone_trans)
qed

text \<open>
  Claim C6. Whatever operations any browsers perform in whatever state, one after the
  other on the shared store, no coupon row disappears or changes its id, and a row whose
  flag is true keeps it true; the same holds for a single operation. The update policy
  lets an update of role public, whatever values it sets, touch no row whose flag is
  true. The handler changes the coupons table, if at all, by one such update that sets
  the flag to true on the rows with the chosen id.
\<close>

theorem claimed_flag_never_reverts:
  "flag_monotone (coupons_tbl d) (coupons_tbl (run_store steps d))
   \<and> flag_monotone (coupons_tbl (store w)) (coupons_tbl (store (exec opn w)))
   \<and> (\<forall>i < length tbl. is_claimed (tbl ! i) \<longrightarrow> rls_update wh upd tbl ! i = tbl ! i)
   \<and> (coupons_tbl (store (claimCoupon e w)) = coupons_tbl (store w) \<or>
      (\<exists>c::Coupon. coupons_tbl (store (claimCoupon e w)) =
         rls_update (\<lambda>r. id_coupon r = id_coupon c) (\<lambda>r. r\<lparr>is_claimed := True\<rparr>) (coupons_tbl (store w))))"
  using run_store_flag_monotone exec_flag_monotone rls_update_claimed_unchanged claimCoupon_coupons_tbl
  by (intro conjI allI impI)


theorem claimed_flag_never_reverts_witness:
  "is_claimed (coupons_tbl (run_store
      [(ClaimCoupon (mk_env 5000), ui world_one_free, localStorage world_one_free),
       (Seed gen0 7000, initial_state, Map.empty)] (store world_one_free)) ! 0)
   \<and> id_coupon (coupons_tbl (run_store
      [(ClaimCoupon (mk_env 5000), ui world_one_free, localStorage world_one_free),
       (Seed gen0 7000, initial_state, Map.empty)] (store world_one_free)) ! 0) = ''c-1''"
proof -
  let ?steps = "[(ClaimCoupon (mk_env 5000), ui world_one_free, localStorage world_one_free),
       (Seed gen0 7000, initial_state, Map.empty)]"
  have l: "0 < length (coupons_tbl (store world_one_free))"
    and c: "is_claimed (coupons_tbl (store world_one_free) ! 0)"
    and i: "id_coupon (coupons_tbl (store world_one_free) ! 0) = ''c-1''"
    by (simp_all add: world_one_free_def mk_world_def mk_coupon_def)
  from claimed_flag_never_reverts[of "store world_one_free" ?steps, THEN conjunct1]
  have "\<forall>i < length (coupons_tbl (store world_one_free)).
      id_coupon (coupons_tbl (run_store ?steps (store world_one_free)) ! i) =
        id_coupon (coupons_tbl (store world_one_free) ! i) \<and>
      (is_claimed (coupons_tbl (store world_one_free) ! i) \<longrightarrow>
       is_claimed (coupons_tbl (run_store ?steps (store world_one_free)) ! i))"
    unfolding flag_monotone_def by (rule conjunct2)
  with l have "id_coupon (coupons_tbl (run_store ?steps (store world_one_free)) ! 0) =
        id_coupon (coupons_tbl (store world_one_free) ! 0) \<and>
      (is_claimed (coupons_tbl (store world_one_free) ! 0) \<longrightarrow>
       is_claimed (coupons_tbl (run_store ?steps (store world_one_free)) ! 0))"
    by blast
  with c i show ?thesis by simp
qed

section \<open>The coupon chosen\<close>

lemma availableCoupon_first:
  "availableCoupon cs = Some c \<Longrightarrow>
   \<exists>pre post. cs = pre @ c # post \<and> (\<forall>x \<in> set pre. is_claimed x) \<and> \<not> is_claimed c"
proof (induction cs)
  case Nil
  then show ?case by (simp add: availableCoupon_def)
next
  case (Cons a cs)
  show ?case
  proof (cases "is_claimed a")
    case True
    with Cons.prems have "availableCoupon cs = Some c" by (simp add: availableCoupon_def)
    with Cons.IH obtain pre post where
      "cs = pre @ c # post" "\<forall>x \<in> set pre. is_claimed x" "\<not> is_claimed c"
      by blast
    with True show ?thesis
      by (intro exI[of _ "a # pre"] exI[of _ post]) simp
  next
    case False
    with Cons.prems have "c = a" by (simp add: availableCoupon_def)
    with False show ?thesis
      by (intro exI[of _ "[]"] exI[of _ cs]) simp
  qed
qed

lemma availableCoupon_earliest:
  assumes "sorted (map created_at cs)" and "availableCoupon cs = Some c"
  shows "\<forall>x \<in> set cs. \<not> is_claimed x \<longrightarrow> created_at c \<le> created_at x"
proof -
  from availableCoupon_first[OF assms(2)] obtain pre post where
    cs: "cs = pre @ c # post" and pre: "\<forall>x \<in> set pre. is_claimed x"
    by blast
  from assms(1) have "\<forall>x \<in> set post. created_at c \<le> created_at x"
    unfolding cs by (simp add: sorted_append)
  with pre show ?thesis
    unfolding cs by auto
qed

lemma fetchCoupons_coupons:
  "coupons (ui (fetchCoupons None w)) = sort_key created_at (coupons_tbl (store w))"
  "coupons (ui (fetchCoupons (Some m) w)) = coupons (ui w)"
  by (simp_all add: fetchCoupons_def select_coupons_def succeeded_def failed_def emit_simps)

lemma fetchCoupons_sorted:
  "sorted (map created_at (coupons (ui w))) \<Longrightarrow>
   sorted (map created_at (coupons (ui (fetchCoupons f w))))"
  by (cases f) (simp_all add: fetchCoupons_coupons)

lemma updateTimeLeft_coupons: "coupons (updateTimeLeft n t s) = coupons s"
  by (simp add: updateTimeLeft_def Let_def split: option.splits)

lemma claim_insert_sorted:
  assumes "sorted (map created_at (coupons (ui w)))"
  shows "sorted (map created_at (coupons (ui (claim_insert e c b w))))"
proof -
  obtain ri d where r: "insert_claim (insert_fault e) (row_id e) (db_now e) (id_coupon c) b
      ''client-ip'' (store w) = (ri, d)"
    by force
  let ?w1 = "(emit (Insert_claim (id_coupon c) b ''client-ip'') w)\<lparr>store := d\<rparr>"
  have c1: "coupons (ui ?w1) = coupons (ui w)" by (simp add: emit_simps)
  show ?thesis
  proof (cases "error ri")
    case None
    let ?w2 = "finally_block (emit (Toast_success (''Claimed coupon: '' @ code c)) ?w1)"
    have "sorted (map created_at (coupons (ui ?w2)))"
      using assms by (simp add: finally_block_simps emit_simps)
    then have "sorted (map created_at (coupons (ui (fetchCoupons (refetch_fault e) ?w2))))"
      by (rule fetchCoupons_sorted)
    with None r show ?thesis
      by (simp add: claim_insert_def checkLastClaim_simps)
  next
    case (Some m)
    with r assms show ?thesis
      by (simp add: claim_insert_def catch_block_simps emit_simps)
  qed
qed

lemma claim_update_sorted:
  assumes "sorted (map created_at (coupons (ui w)))"
  shows "sorted (map created_at (coupons (ui (claim_update e c w))))"
proof (cases "update_fault e")
  case None
  then show ?thesis
    using assms by (simp add: claim_update_unfold Let_def claim_insert_sorted)
next
  case (Some m)
  then show ?thesis
    using assms by (simp add: claim_update_unfold Let_def catch_block_simps)
qed

lemma claimCoupon_sorted:
  assumes "sorted (map created_at (coupons (ui w)))"
  shows "sorted (map created_at (coupons (ui (claimCoupon e w))))"
proof (cases "claiming (ui w)")
  case True
  with assms show ?thesis by (simp add: claimCoupon_in_flight)
next
  case False
  show ?thesis
  proof (cases "availableCoupon (coupons (ui w))")
    case None
    with False assms show ?thesis by (simp add: claimCoupon_none emit_simps)
  next
    case (Some c)
    show ?thesis
    proof (cases "rate_limited (select_recent_claim (recent_fault e) (store w)) (now_claim e)")
      case None
      have "sorted (map created_at (coupons (ui (emit Select_recent_claim (w\<lparr>ui := (ui w)\<lparr>claiming := True\<rparr>\<rparr>)))))"
        using assms by (simp add: emit_simps)
      then show ?thesis
        unfolding claimCoupon_permitted[OF False Some None] by (rule claim_update_sorted)
    next
      case (Some t)
      from issued_refused[OF False \<open>availableCoupon (coupons (ui w)) = Some c\<close> Some] assms
      show ?thesis by (simp add: updateTimeLeft_coupons)
    qed
  qed
qed

lemma exec_sorted:
  assumes "sorted (map created_at (coupons (ui w)))"
  shows "sorted (map created_at (coupons (ui (exec opn w))))"
proof (cases opn)
  case (Seed gen now)
  with assms show ?thesis by simp
next
  case (FetchCoupons f)
  with assms show ?thesis by (simp add: fetchCoupons_sorted)
next
  case (CheckLastClaim f)
  with assms show ?thesis by (simp add: checkLastClaim_simps)
next
  case (Tick now)
  with assms show ?thesis by (simp add: tick_def updateTimeLeft_coupons)
next
  case (ClaimCoupon e)
  with assms show ?thesis by (simp add: claimCoupon_sorted)
qed

lemma run_sorted:
  "sorted (map created_at (coupons (ui w))) \<Longrightarrow>
   sorted (map created_at (coupons (ui (run ops w))))"
  unfolding run_def by (induction ops arbitrary: w) (simp_all add: exec_sorted)

lemma update_targets:
  assumes "\<not> claiming (ui w)" and "availableCoupon (coupons (ui w)) = Some c"
  shows "issued e w = [Select_recent_claim, Toast_error ''Please wait 1 hour between claims''] \<or>
     (\<exists>rest. issued e w = Select_recent_claim # Update_coupon (id_coupon c) # rest)"
    and "\<forall>i. Update_coupon i \<in> set (issued e w) \<longrightarrow> i = id_coupon c"
proof -
  have "(issued e w = [Select_recent_claim, Toast_error ''Please wait 1 hour between claims''] \<or>
     (\<exists>rest. issued e w = Select_recent_claim # Update_coupon (id_coupon c) # rest)) \<and>
     (\<forall>i. Update_coupon i \<in> set (issued e w) \<longrightarrow> i = id_coupon c)"
  proof (cases "rate_limited (select_recent_claim (recent_fault e) (store w)) (now_claim e)")
    case None
    from issued_permitted[OF assms None] obtain rest where
      i: "issued e w = Select_recent_claim # Update_coupon (id_coupon c) # rest"
      and f: "update_fault e \<noteq> None \<longrightarrow> rest = [Toast_error ''Failed to claim coupon'', Console_error]"
      and g: "update_fault e = None \<longrightarrow>
        (\<exists>rest'. rest = Insert_claim (id_coupon c)
                        (fst (ensure_browser_id (random_uuid e) (localStorage w))) ''client-ip'' # rest'
                    \<and> (\<forall>ev \<in> set rest'. \<not> is_write ev \<and>
                          ev \<noteq> Toast_error ''Please wait 1 hour between claims''))"
      by (elim exE conjE)
    have nu: "Update_coupon j \<notin> set rest" for j
    proof (cases "update_fault e")
      case None
      with g obtain rest' where r: "rest = Insert_claim (id_coupon c)
            (fst (ensure_browser_id (random_uuid e) (localStorage w))) ''client-ip'' # rest'"
        and nw: "\<forall>ev \<in> set rest'. \<not> is_write ev"
        by auto
      have "Update_coupon j \<notin> set rest'"
      proof
        assume "Update_coupon j \<in> set rest'"
        with nw have "\<not> is_write (Update_coupon j)" by (rule bspec)
        then show False by (simp add: is_write_def)
      qed
      with r show ?thesis by simp
    next
      case (Some m)
      with f show ?thesis by simp
    qed
    from i nu show ?thesis by auto
  next
    case (Some t)
    have "issued e w = [Select_recent_claim, Toast_error ''Please wait 1 hour between claims'']"
      unfolding issued_def issued_refused[OF assms Some] by simp
    then show ?thesis by simp
  qed
  then show "issued e w = [Select_recent_claim, Toast_error ''Please wait 1 hour between claims''] \<or>
     (\<exists>rest. issued e w = Select_recent_claim # Update_coupon (id_coupon c) # rest)"
    and "\<forall>i. Update_coupon i \<in> set (issued e w) \<longrightarrow> i = id_coupon c"
    by simp_all
qed


text \<open>
  Claim C3. \<^verbatim>\<open>fetchCoupons\<close> stores the rows of the coupons table ordered by creation time
  ascending, and every list the component ever holds is ordered so. An attempt that is
  not in flight chooses the first coupon of that list whose flag is false: all coupons
  before it in the list are claimed. The choice reads the list of the component only,
  whatever the store holds by then: the first request after the most-recent-claim query
  is the update of the chosen coupon's id, no update is issued for any other id, and no
  query of the coupons precedes it. In a list ordered by creation time no unclaimed
  coupon of the list is older than the chosen one.
\<close>

theorem first_unclaimed_of_fetched_list:
  "coupons (ui (fetchCoupons None w0)) = sort_key created_at (coupons_tbl (store w0))
   \<and> sorted (map created_at (coupons (ui (run ops (initial_world d)))))
   \<and> (\<not> claiming (ui w) \<and> availableCoupon (coupons (ui w)) = Some c \<longrightarrow>
        (\<exists>pre post. coupons (ui w) = pre @ c # post \<and> (\<forall>x \<in> set pre. is_claimed x) \<and> \<not> is_claimed c)
        \<and> (issued e w = [Select_recent_claim, Toast_error ''Please wait 1 hour between claims''] \<or>
           (\<exists>rest. issued e w = Select_recent_claim # Update_coupon (id_coupon c) # rest))
        \<and> (\<forall>i. Update_coupon i \<in> set (issued e w) \<longrightarrow> i = id_coupon c)
        \<and> (sorted (map created_at (coupons (ui w))) \<longrightarrow>
             (\<forall>x \<in> set (coupons (ui w)). \<not> is_claimed x \<longrightarrow> created_at c \<le> created_at x)))"
proof (intro conjI impI)
  show "coupons (ui (fetchCoupons None w0)) = sort_key created_at (coupons_tbl (store w0))"
    by (rule fetchCoupons_coupons(1))
next
  have "sorted (map created_at (coupons (ui (initial_world d))))"
    by (simp add: initial_world_def initial_state_def)
  then show "sorted (map created_at (coupons (ui (run ops (initial_world d)))))"
    by (rule run_sorted)
next
  assume h: "\<not> claiming (ui w) \<and> availableCoupon (coupons (ui w)) = Some c"
  then have nc: "\<not> claiming (ui w)" and av: "availableCoupon (coupons (ui w)) = Some c"
    by simp_all
  show "\<exists>pre post. coupons (ui w) = pre @ c # post \<and> (\<forall>x \<in> set pre. is_claimed x) \<and> \<not> is_claimed c"
    using av by (rule availableCoupon_first)
  show "issued e w = [Select_recent_claim, Toast_error ''Please wait 1 hour between claims''] \<or>
           (\<exists>rest. issued e w = Select_recent_claim # Update_coupon (id_coupon c) # rest)"
    using nc av by (rule update_targets(1))
  show "\<forall>i. Update_coupon i \<in> set (issued e w) \<longrightarrow> i = id_coupon c"
    using nc av by (rule update_targets(2))
  assume "sorted (map created_at (coupons (ui w)))"
  then show "\<forall>x \<in> set (coupons (ui w)). \<not> is_claimed x \<longrightarrow> created_at c \<le> created_at x"
    using av by (rule availableCoupon_earliest)
qed

theorem first_unclaimed_of_fetched_list_witness:
  "is_claimed (coupons_tbl (store world_stale) ! 1)
   \<and> Update_coupon ''c-2'' \<in> set (issued (mk_env 1700008000000) world_stale)
   \<and> Update_coupon ''c-3'' \<notin> set (issued (mk_env 1700008000000) world_stale)
   \<and> created_at (mk_coupon ''c-2'' ''FREESHIP'' False 1690000000000) \<le> created_at (mk_coupon ''c-3'' ''SPRING25'' False 1690000000000)"
proof -
  let ?c = "mk_coupon ''c-2'' ''FREESHIP'' False 1690000000000"
  have nc: "\<not> claiming (ui world_stale)" by (simp add: ui_world_stale)
  have av: "availableCoupon (coupons (ui world_stale)) = Some ?c"
    by (simp add: ui_world_stale db_old_def mk_coupon_def availableCoupon_def)
  have so: "sorted (map created_at (coupons (ui world_stale)))"
    by (simp add: ui_world_stale db_old_def mk_coupon_def)
  have m3: "mk_coupon ''c-3'' ''SPRING25'' False 1690000000000 \<in> set (coupons (ui world_stale))"
    and u3: "\<not> is_claimed (mk_coupon ''c-3'' ''SPRING25'' False 1690000000000)"
    by (simp_all add: ui_world_stale db_old_def mk_coupon_def)
  have st: "is_claimed (coupons_tbl (store world_stale) ! 1)"
    by (simp add: store_world_stale db_after_other_claim_eq mk_coupon_def)
  have mx: "Max (claimed_at ` set (claims_tbl (store world_stale))) = 1700004000100"
    by (simp add: store_world_stale db_after_other_claim_eq mk_claim_def)
  have d: "data (select_recent_claim (recent_fault (mk_env 1700008000000)) (store world_stale)) = Some (1700004000100 # [])"
    by (simp add: mk_env_def select_recent_claim_data mx)
       (simp add: store_world_stale db_after_other_claim_eq)
  have ge: "cooldown \<le> now_claim (mk_env 1700008000000) - 1700004000100"
    by (simp add: mk_env_def cooldown_def)
  from permitted_after_the_hour[OF nc av d ge] obtain evs where
    i: "issued (mk_env 1700008000000) world_stale = Select_recent_claim # Update_coupon (id_coupon ?c) # evs" ..
  note t = first_unclaimed_of_fetched_list[of _ _ _ world_stale ?c "mk_env 1700008000000",
      THEN conjunct2, THEN conjunct2, THEN mp, OF conjI[OF nc av]]
  have idc: "id_coupon ?c = ''c-2''" by (simp add: mk_coupon_def)
  from i have a: "Update_coupon ''c-2'' \<in> set (issued (mk_env 1700008000000) world_stale)"
    by (simp add: idc)
  from t[THEN conjunct2, THEN conjunct2, THEN conjunct1]
  have "Update_coupon ''c-3'' \<in> set (issued (mk_env 1700008000000) world_stale) \<longrightarrow> ''c-3'' = id_coupon ?c"
    by (rule spec)
  then have b: "Update_coupon ''c-3'' \<notin> set (issued (mk_env 1700008000000) world_stale)"
    by (auto simp: idc)
  from t[THEN conjunct2, THEN conjunct2, THEN conjunct2, THEN mp, OF so] m3 u3
  have c: "created_at ?c \<le> created_at (mk_coupon ''c-3'' ''SPRING25'' False 1690000000000)"
    by blast
  from st a b c show ?thesis by (intro conjI)
qed

end
